theory Spec2Isabelle
  imports Complex_Main "HOL-Library.Sublist"
begin

section \<open>CyberShield: abuse detection, escalation and dispatch\<close>

text \<open>
  A shallow embedding of \<^verbatim>\<open>app/services/abuse_detector.py\<close>,
  \<^verbatim>\<open>app/services/websocket_manager.py\<close>,
  \<^verbatim>\<open>app/services/screenshot_generator.py\<close> and the message loop of
  \<^verbatim>\<open>app/main.py\<close>.

  Conventions of the embedding.
  \<^item> A Python \<^verbatim>\<open>str\<close> is a \<^typ>\<open>string\<close> whose characters are the code
    points 0 to 255; \<^verbatim>\<open>lower\<close>, \<^verbatim>\<open>isupper\<close>, \<^verbatim>\<open>strip\<close> and the classes
    \<^verbatim>\<open>\s\<close> and \<^verbatim>\<open>\w\<close> are those of Python 3 on these code points. Text with
    a code point above 255 is outside the model.
  \<^item> Scores are Python floats. Every score the detector produces is a multiple of
    \<^verbatim>\<open>0.5\<close> not above \<^verbatim>\<open>11.5\<close>, which binary floating point represents
    and adds exactly, so scores are modelled as \<^typ>\<open>real\<close> numbers. The two ratios
    are compared with \<^verbatim>\<open>0.7\<close> and \<^verbatim>\<open>0.2\<close> as exact fractions; the float
    comparison agrees with the exact one for every text shorter than \<^verbatim>\<open>10^14\<close>
    characters.
  \<^item> An exception is a value of type \<open>error\<close>; a function that mutates the manager
    and may raise returns the state it leaves behind together with the error, because
    Python keeps the mutations made before the raise.
\<close>

subsection \<open>Python string operations on the code points 0 to 255\<close>

text \<open>\<^verbatim>\<open>str.isupper\<close> of one character: A to Z, and the capital letters
  \<^verbatim>\<open>U+00C0..U+00D6\<close> and \<^verbatim>\<open>U+00D8..U+00DE\<close>. \<^verbatim>\<open>str.lower\<close> moves exactly these,
  by 32.\<close>

definition isupper :: "char \<Rightarrow> bool" where
  "isupper c = (let n = (of_char c :: nat) in
     (65 \<le> n \<and> n \<le> 90) \<or> (192 \<le> n \<and> n \<le> 214) \<or> (216 \<le> n \<and> n \<le> 222))"

definition lower_char :: "char \<Rightarrow> char" where
  "lower_char c = (if isupper c then char_of (of_char c + (32::nat)) else c)"

definition lower :: "string \<Rightarrow> string" where
  "lower s = map lower_char s"

text \<open>\<^verbatim>\<open>str.isspace\<close>, which is also what \<^verbatim>\<open>strip\<close> removes and \<^verbatim>\<open>\s\<close>
  matches: tab to carriage return, the four separators \<^verbatim>\<open>0x1c..0x1f\<close>, the space,
  \<^verbatim>\<open>U+0085\<close> and the no-break space \<^verbatim>\<open>U+00A0\<close>.\<close>

definition isspace :: "char \<Rightarrow> bool" where
  "isspace c = (let n = (of_char c :: nat) in
     (9 \<le> n \<and> n \<le> 13) \<or> (28 \<le> n \<and> n \<le> 32) \<or> n = 133 \<or> n = 160)"

text \<open>The class \<^verbatim>\<open>\w\<close> of \<^verbatim>\<open>re\<close> for a \<^verbatim>\<open>str\<close> pattern: the alphanumeric
  characters and the underscore.\<close>

definition isword :: "char \<Rightarrow> bool" where
  "isword c = (let n = (of_char c :: nat) in
     (48 \<le> n \<and> n \<le> 57) \<or> (65 \<le> n \<and> n \<le> 90) \<or> n = 95 \<or> (97 \<le> n \<and> n \<le> 122)
     \<or> n = 170 \<or> (178 \<le> n \<and> n \<le> 179) \<or> n = 181 \<or> (185 \<le> n \<and> n \<le> 186)
     \<or> (188 \<le> n \<and> n \<le> 190) \<or> (192 \<le> n \<and> n \<le> 214) \<or> (216 \<le> n \<and> n \<le> 246)
     \<or> (248 \<le> n \<and> n \<le> 255))"

definition strip :: "string \<Rightarrow> string" where
  "strip s = rev (dropWhile isspace (rev (dropWhile isspace s)))"

text \<open>\<^verbatim>\<open>p in s\<close> for strings: \<open>p\<close> occurs in \<open>s\<close> as a contiguous substring.\<close>

fun str_in :: "string \<Rightarrow> string \<Rightarrow> bool" where
  "str_in p [] = (p = [])"
| "str_in p (c # cs) = (prefix p (c # cs) \<or> str_in p cs)"

text \<open>\<^verbatim>\<open>' '.join(xs)\<close>.\<close>

fun join_space :: "string list \<Rightarrow> string" where
  "join_space [] = []"
| "join_space [x] = x"
| "join_space (x # y # ys) = x @ CHR '' '' # join_space (y # ys)"

subsection \<open>The five structural patterns and \<^verbatim>\<open>re.findall\<close>\<close>

text \<open>
  Each pattern of \<^verbatim>\<open>abusive_patterns\<close> has the shape \<^verbatim>\<open>\b( ... )\b\<close> where the
  group is a sequence of literals, \<^verbatim>\<open>\s+\<close> and \<^verbatim>\<open>\w+\<close>. In these five
  patterns a greedy \<^verbatim>\<open>\s+\<close> or \<^verbatim>\<open>\w+\<close> is always followed by an item that
  cannot start with a character of the same class, so the longest run is the only run
  the backtracking matcher of \<^verbatim>\<open>re\<close> can succeed with. Literals are compared
  without regard to case (\<^verbatim>\<open>re.IGNORECASE\<close>).
\<close>

datatype tok = Lit string | Spaces | Word

fun match_toks :: "tok list \<Rightarrow> string \<Rightarrow> string option" where
  "match_toks [] s = Some []"
| "match_toks (Lit l # ts) s =
     (if length l \<le> length s \<and> lower (take (length l) s) = lower l
      then map_option (\<lambda>m. take (length l) s @ m) (match_toks ts (drop (length l) s))
      else None)"
| "match_toks (Spaces # ts) s =
     (if takeWhile isspace s = [] then None
      else map_option (\<lambda>m. takeWhile isspace s @ m) (match_toks ts (dropWhile isspace s)))"
| "match_toks (Word # ts) s =
     (if takeWhile isword s = [] then None
      else map_option (\<lambda>m. takeWhile isword s @ m) (match_toks ts (dropWhile isword s)))"

text \<open>\<^verbatim>\<open>\b\<close> between an optional left and an optional right neighbour.\<close>

definition word_boundary :: "char option \<Rightarrow> char option \<Rightarrow> bool" where
  "word_boundary l r =
     ((case l of None \<Rightarrow> False | Some c \<Rightarrow> isword c) \<noteq> (case r of None \<Rightarrow> False | Some c \<Rightarrow> isword c))"

definition next_char :: "string \<Rightarrow> char option" where
  "next_char s = (case s of [] \<Rightarrow> None | c # _ \<Rightarrow> Some c)"

definition last_char :: "char option \<Rightarrow> string \<Rightarrow> char option" where
  "last_char prev m = (if m = [] then prev else Some (last m))"

text \<open>A match of \<^verbatim>\<open>\b(toks)\b\<close> that starts at the head of \<open>s\<close>, where \<open>prev\<close> is the
  character before it.\<close>

definition match_at :: "tok list \<Rightarrow> char option \<Rightarrow> string \<Rightarrow> string option" where
  "match_at ts prev s =
     (if word_boundary prev (next_char s) then
        (case match_toks ts s of
           None \<Rightarrow> None
         | Some m \<Rightarrow>
             if word_boundary (last_char prev m) (next_char (drop (length m) s))
             then Some m else None)
      else None)"

text \<open>\<^verbatim>\<open>re.findall\<close>: the non-overlapping matches from left to right; \<open>skip\<close> counts
  the characters of the current match still to be passed over.\<close>

fun findall_from :: "tok list \<Rightarrow> nat \<Rightarrow> char option \<Rightarrow> string \<Rightarrow> string list" where
  "findall_from ts skip prev [] = []"
| "findall_from ts (Suc k) prev (c # cs) = findall_from ts k (Some c) cs"
| "findall_from ts 0 prev (c # cs) =
     (case match_at ts prev (c # cs) of
        Some m \<Rightarrow> m # findall_from ts (length m - 1) (Some c) cs
      | None \<Rightarrow> findall_from ts 0 (Some c) cs)"

definition findall :: "tok list \<Rightarrow> string \<Rightarrow> string list" where
  "findall ts s = findall_from ts 0 None s"

subsection \<open>\<^verbatim>\<open>AbuseDetector\<close>\<close>

text \<open>\<^verbatim>\<open>self.abusive_keywords\<close>, in the insertion order of the dictionary literal.\<close>

definition abusive_keywords :: "(string \<times> real) list" where
  "abusive_keywords =
    [(''hate'', 9.0), (''kill'', 10.0), (''die'', 9.0), (''death'', 8.5),
     (''murder'', 10.0), (''suicide'', 9.5),
     (''bitch'', 7.0), (''fuck'', 6.5), (''shit'', 6.0), (''damn'', 5.5),
     (''hell'', 5.0), (''bastard'', 7.5), (''asshole'', 7.0),
     (''stupid'', 4.5), (''idiot'', 5.0), (''loser'', 4.0), (''ugly'', 3.5),
     (''fat'', 3.0), (''worthless'', 6.0),
     (''nobody likes you'', 8.0), (''everyone hates you'', 8.5),
     (''you should'', 7.0), (''go away'', 4.0), (''shut up'', 5.0)]"

definition abusive_patterns :: "tok list list" where
  "abusive_patterns =
    [[Lit ''you'', Spaces, Lit ''are'', Spaces, Lit ''so'', Spaces, Word],
     [Lit ''i'', Spaces, Lit ''hate'', Spaces, Lit ''you''],
     [Lit ''go'', Spaces, Word, Spaces, Lit ''yourself''],
     [Lit ''nobody'', Spaces, Word, Spaces, Lit ''you''],
     [Lit ''you'', Spaces, Lit ''should'', Spaces, Word]]"

definition phrases_to_check :: "string list" where
  "phrases_to_check =
    [''send me your nude'', ''show me your body'', ''give me your money'', ''pay me $'',
     ''expose your secrets'', ''share your photos'', ''unless you'', ''or else'',
     ''kill yourself'', ''hurt yourself'', ''nobody cares'', ''i will kill you'',
     ''i will hurt you'', ''i will find you'', ''send pics baby'']"

datatype category =
  THREAT | MENTAL_HARASSMENT | BLACKMAIL | EXPLOITATION | SEXUAL_HARASSMENT | CYBERBULLYING

definition cyberbullying_words :: "string list" where
  "cyberbullying_words =
    [''loser'', ''stupid'', ''idiot'', ''worthless'', ''nobody likes you'',
     ''everyone hates you'', ''ugly'', ''fat'']"

definition sexual_harassment_words :: "string list" where
  "sexual_harassment_words =
    [''sexy'', ''hot'', ''nude'', ''naked'', ''send pics'', ''show me'', ''sexual'', ''body'',
     ''breast'', ''private'', ''pics baby'', ''send me your'']"

definition exploitation_words :: "string list" where
  "exploitation_words =
    [''money'', ''pay me'', ''give me'', ''steal'', ''scam'', ''fraud'', ''trick'', ''use you'',
     ''give me your money'', ''pay me $'']"

definition blackmail_words :: "string list" where
  "blackmail_words =
    [''expose'', ''tell everyone'', ''share photos'', ''blackmail'', ''secret'', ''unless you'',
     ''or else'', ''expose your secrets'', ''share your photos'']"

definition mental_harassment_words :: "string list" where
  "mental_harassment_words =
    [''kill yourself'', ''suicide'', ''die'', ''worthless'', ''nobody cares'', ''alone'',
     ''depressed'', ''hurt yourself'']"

definition threat_words :: "string list" where
  "threat_words =
    [''kill'', ''hurt'', ''beat'', ''destroy'', ''revenge'', ''get you'', ''find you'',
     ''come for you'', ''murder'', ''violence'']"

text \<open>\<^verbatim>\<open>any(word in keywords_text for word in words)\<close>.\<close>

definition any_in :: "string list \<Rightarrow> string \<Rightarrow> bool" where
  "any_in words keywords_text = list_ex (\<lambda>word. str_in word keywords_text) words"

text \<open>\<^verbatim>\<open>_classify_abuse_type\<close>.\<close>

definition classify_abuse_type :: "string list \<Rightarrow> string list \<Rightarrow> category" where
  "classify_abuse_type keywords patterns =
     (let keywords_text = lower (join_space keywords) in
      if any_in threat_words keywords_text
         \<or> list_ex (\<lambda>pattern. str_in ''kill'' pattern \<or> str_in ''hurt'' pattern) patterns
      then THREAT
      else if any_in mental_harassment_words keywords_text then MENTAL_HARASSMENT
      else if any_in blackmail_words keywords_text then BLACKMAIL
      else if any_in exploitation_words keywords_text then EXPLOITATION
      else if any_in sexual_harassment_words keywords_text then SEXUAL_HARASSMENT
      else if any_in cyberbullying_words keywords_text then CYBERBULLYING
      else CYBERBULLYING)"

text \<open>The three scanning loops of \<^verbatim>\<open>analyze_text\<close>; each threads the running score
  and the list it appends to.\<close>

fun scan_keywords :: "(string \<times> real) list \<Rightarrow> string \<Rightarrow> real \<times> string list \<Rightarrow> real \<times> string list" where
  "scan_keywords [] text_lower acc = acc"
| "scan_keywords ((keyword, score) # rest) text_lower (abuse_score, detected_keywords) =
     scan_keywords rest text_lower
       (if str_in keyword text_lower
        then (max abuse_score score, detected_keywords @ [keyword])
        else (abuse_score, detected_keywords))"

fun scan_phrases :: "string list \<Rightarrow> string \<Rightarrow> real \<times> string list \<Rightarrow> real \<times> string list" where
  "scan_phrases [] text_lower acc = acc"
| "scan_phrases (phrase # rest) text_lower (abuse_score, detected_keywords) =
     scan_phrases rest text_lower
       (if str_in phrase text_lower
        then (max abuse_score 7.0, detected_keywords @ [phrase])
        else (abuse_score, detected_keywords))"

fun scan_patterns :: "tok list list \<Rightarrow> string \<Rightarrow> real \<times> string list \<Rightarrow> real \<times> string list" where
  "scan_patterns [] text_lower acc = acc"
| "scan_patterns (pattern # rest) text_lower (abuse_score, detected_patterns) =
     scan_patterns rest text_lower
       (let matches = findall pattern text_lower in
        if matches \<noteq> []
        then (max abuse_score 7.0, detected_patterns @ matches)
        else (abuse_score, detected_patterns))"

text \<open>The running score and the evidence lists after the three loops (lines 63 to 91).\<close>

definition keyword_scan :: "string \<Rightarrow> real \<times> string list" where
  "keyword_scan text_lower =
     scan_phrases phrases_to_check text_lower (scan_keywords abusive_keywords text_lower (0.0, []))"

definition pattern_scan :: "string \<Rightarrow> real \<Rightarrow> real \<times> string list" where
  "pattern_scan text_lower abuse_score = scan_patterns abusive_patterns text_lower (abuse_score, [])"

definition caps_ratio_of :: "string \<Rightarrow> real" where
  "caps_ratio_of text = real (length (filter isupper text)) / real (length text)"

definition punct_ratio_of :: "string \<Rightarrow> real" where
  "punct_ratio_of text =
     real (length (filter (\<lambda>c. c = CHR ''!'' \<or> c = CHR ''?'') text)) / real (length text)"

text \<open>The stylistic adjustments and the clamp (lines 94 to 106).\<close>

definition adjust_score :: "string \<Rightarrow> string \<Rightarrow> real \<Rightarrow> real" where
  "adjust_score text text_lower abuse_score =
     (let s1 = (if 0 < length text_lower
                then (let s0 = (if caps_ratio_of text > 0.7 \<and> length text > 10
                                then abuse_score + 1.0 else abuse_score)
                      in if punct_ratio_of text > 0.2 then s0 + 0.5 else s0)
                else abuse_score)
      in min s1 10.0)"

datatype analysis =
  Reason string
| Analysis (detected_keywords: "string list") (detected_patterns: "string list")
    (caps_ratio: real) (punct_ratio: real) (threshold_used: real) (classification: category)

text \<open>\<^verbatim>\<open>analysis.get("classification")\<close>.\<close>

fun get_classification :: "analysis \<Rightarrow> category option" where
  "get_classification (Reason r) = None"
| "get_classification (Analysis ks ps cr pr th c) = Some c"

definition analyze_text :: "string \<Rightarrow> bool \<times> real \<times> analysis" where
  "analyze_text text =
     (if text = [] \<or> strip text = [] then (False, 0.0, Reason ''Empty text'')
      else
        let text_lower = strip (lower text);
            ks = keyword_scan text_lower;
            ps = pattern_scan text_lower (fst ks);
            abuse_score = adjust_score text text_lower (fst ps);
            is_abusive = (abuse_score \<ge> 4.0)
        in (is_abusive, abuse_score,
            Analysis (snd ks) (snd ps)
              (if 0 < length text_lower then caps_ratio_of text else 0.0)
              (if 0 < length text_lower then punct_ratio_of text else 0.0)
              4.0
              (classify_abuse_type (snd ks) (snd ps))))"

definition get_abuse_severity :: "real \<Rightarrow> string" where
  "get_abuse_severity score =
     (if score \<ge> 8.0 then ''SEVERE''
      else if score \<ge> 6.0 then ''HIGH''
      else if score \<ge> 4.0 then ''MEDIUM''
      else ''LOW'')"

definition is_safe_content :: "string \<Rightarrow> bool" where
  "is_safe_content text = (\<not> fst (analyze_text text))"

text \<open>The two lists that the theorems about the running score speak of: the weights
  of the keywords and phrases that occur in the text (a phrase weighs \<^verbatim>\<open>7.0\<close>), and
  whether some pattern has a match.\<close>

definition matched_weights :: "string \<Rightarrow> real list" where
  "matched_weights text_lower =
     map snd (filter (\<lambda>(keyword, score). str_in keyword text_lower) abusive_keywords)
     @ map (\<lambda>phrase. 7.0) (filter (\<lambda>phrase. str_in phrase text_lower) phrases_to_check)"

definition pattern_hit :: "string \<Rightarrow> bool" where
  "pattern_hit text_lower = list_ex (\<lambda>pattern. findall pattern text_lower \<noteq> []) abusive_patterns"

subsection \<open>Data of the connection manager\<close>

datatype error =
  KeyError | IndexError | AttributeError | UnboundLocalError | OperationalError | RenderError

record user =
  username :: string
  full_name :: string
  email :: string

text \<open>The inbound envelope, as parsed from the JSON text a client sends.\<close>

record inbound =
  in_sender_id :: int
  in_receiver_id :: int
  in_content :: string

text \<open>The dictionary \<^verbatim>\<open>message_data\<close> once \<^verbatim>\<open>websocket_endpoint\<close> has attached the
  classification; \<open>md_id\<close> is \<open>None\<close> until \<^verbatim>\<open>store_message\<close> sets the key.\<close>

record message_data =
  md_sender_id :: int
  md_receiver_id :: int
  md_content :: string
  md_is_abusive :: bool
  md_abuse_score :: real
  md_abuse_type :: "category option"
  md_id :: "int option"

text \<open>An entry of a pair's \<^verbatim>\<open>"messages"\<close> list. The handler writes the keys
  \<^verbatim>\<open>id, content, abuse_score, timestamp\<close> only; \<open>inc_abuse_type\<close> is \<open>None\<close> when
  the key \<^verbatim>\<open>abuse_type\<close> is absent.\<close>

record incident =
  inc_id :: int
  inc_content :: string
  inc_abuse_score :: real
  inc_timestamp :: nat
  inc_abuse_type :: "category option"

record pair_state =
  count :: nat
  messages :: "incident list"
  last_reset :: nat

record report_row =
  rep_user_id :: int
  rep_reported_user_id :: int
  rep_message_id :: int
  rep_evidence_file_path :: nat
  rep_status :: string

record blocked_row =
  blk_user_id :: int
  blk_blocked_user_id :: int
  blk_reason :: string

datatype payload =
  Alert (alert_severity: string) (alert_message: string)
| Chat message_data

record report_data =
  rd_reporter :: int
  rd_reported_user :: int
  rd_severity :: string
  rd_total_abusive_messages :: nat
  rd_abuse_types_detected :: "category set"
  rd_highest_abuse_score :: real

datatype member = Json_report report_data | Screenshot | Readme

text \<open>A ZIP file under \<^verbatim>\<open>reports/\<close>. Its name is
  \<^verbatim>\<open>cybershield_report_<timestamp>.zip\<close>, so the time stamp stands for the path.\<close>

record archive =
  zip_path :: nat
  zip_members :: "member list"

text \<open>
  The manager (\<open>active_connections\<close>, \<open>abuse_counters\<close>) together with what it
  writes to its collaborators: the rows committed to the database, the texts sent on each
  socket, and the ZIP files written. A socket is a number. The key of \<open>abuse_counters\<close> is
  the string \<^verbatim>\<open>f"{sender_id}_{receiver_id}"\<close>, which determines the pair of integers
  and is modelled as that pair.
\<close>

record state =
  active_connections :: "int \<rightharpoonup> nat"
  abuse_counters :: "int \<times> int \<rightharpoonup> pair_state"
  db_messages :: "message_data list"
  db_reports :: "report_row list"
  db_blocked :: "blocked_row list"
  sent :: "(nat \<times> payload) list"
  archives :: "archive list"

text \<open>What the collaborators answer during one call: the clock, the user table, whether
  the database accepts queries and commits, and whether the renderer saves its image.\<close>

datatype render_outcome = Render_saved | Render_raises

record env =
  now :: nat
  db_users :: "int \<rightharpoonup> user"
  db_available :: bool
  renderer :: render_outcome

definition init_state :: state where
  "init_state = \<lparr>active_connections = Map.empty, abuse_counters = Map.empty,
     db_messages = [], db_reports = [], db_blocked = [], sent = [], archives = []\<rparr>"

subsection \<open>\<^verbatim>\<open>ScreenshotGenerator\<close>\<close>

text \<open>\<^verbatim>\<open>generate_evidence_screenshot\<close>: \<^verbatim>\<open>None\<close> for an empty list; otherwise the
  image drawn and saved by \<^verbatim>\<open>generate_chat_screenshot\<close>, whose file operations are
  the environment's. The result is the path of the saved image.\<close>

definition generate_evidence_screenshot :: "env \<Rightarrow> incident list \<Rightarrow> error + nat option" where
  "generate_evidence_screenshot e abusive_messages =
     (if abusive_messages = [] then Inr None
      else (case renderer e of
              Render_raises \<Rightarrow> Inl RenderError
            | Render_saved \<Rightarrow> Inr (Some (now e))))"

subsection \<open>\<^verbatim>\<open>ConnectionManager\<close>\<close>

definition connect :: "state \<Rightarrow> nat \<Rightarrow> int \<Rightarrow> state" where
  "connect s websocket user_id =
     s\<lparr>active_connections := (active_connections s)(user_id \<mapsto> websocket)\<rparr>"

definition disconnect :: "state \<Rightarrow> int \<Rightarrow> state" where
  "disconnect s user_id =
     (if user_id \<in> dom (active_connections s)
      then s\<lparr>active_connections := (active_connections s)(user_id := None)\<rparr>
      else s)"

definition send_text :: "state \<Rightarrow> nat \<Rightarrow> payload \<Rightarrow> state" where
  "send_text s websocket p = s\<lparr>sent := sent s @ [(websocket, p)]\<rparr>"

definition send_personal_message :: "state \<Rightarrow> message_data \<Rightarrow> int \<Rightarrow> state" where
  "send_personal_message s message user_id =
     (case active_connections s user_id of
        Some websocket \<Rightarrow> send_text s websocket (Chat message)
      | None \<Rightarrow> s)"

text \<open>\<^verbatim>\<open>store_message\<close>. The row gets the next key of the table; keys are taken to
  stay within the range of the column. Any failure of the write is the one error of an
  unavailable database.\<close>

definition store_message :: "env \<Rightarrow> state \<Rightarrow> message_data \<Rightarrow> state \<times> (error + message_data)" where
  "store_message e s message_data =
     (if \<not> db_available e then (s, Inl OperationalError)
      else
        let new_id = int (length (db_messages s)) + 1;
            stored = message_data\<lparr>md_id := Some new_id\<rparr>
        in (s\<lparr>db_messages := db_messages s @ [stored]\<rparr>, Inr stored))"

definition severity_of :: "incident list \<Rightarrow> string" where
  "severity_of msgs =
     (if list_ex (\<lambda>msg. inc_abuse_score msg > 8) msgs then ''HIGH'' else ''MEDIUM'')"

text \<open>\<^verbatim>\<open>msg.get('abuse_type', 'CYBERBULLYING')\<close>.\<close>

definition abuse_type_of :: "incident \<Rightarrow> category" where
  "abuse_type_of msg = (case inc_abuse_type msg of None \<Rightarrow> CYBERBULLYING | Some c \<Rightarrow> c)"

text \<open>\<^verbatim>\<open>max(msg.get('abuse_score', 0) for msg in messages)\<close>, computed only for a
  list that is not empty; the field keeps its initial 0 otherwise.\<close>

definition highest_score :: "incident list \<Rightarrow> real" where
  "highest_score msgs =
     (case msgs of
        [] \<Rightarrow> 0
      | msg # rest \<Rightarrow> fold max (map inc_abuse_score rest) (inc_abuse_score msg))"

definition build_report_data :: "int \<Rightarrow> int \<Rightarrow> incident list \<Rightarrow> report_data" where
  "build_report_data sender_id receiver_id msgs =
     \<lparr>rd_reporter = receiver_id, rd_reported_user = sender_id,
      rd_severity = severity_of msgs,
      rd_total_abusive_messages = length msgs,
      rd_abuse_types_detected = set (map abuse_type_of msgs),
      rd_highest_abuse_score = highest_score msgs\<rparr>"

text \<open>
  \<^verbatim>\<open>generate_evidence_report\<close>. The places where it raises, in the order of the code:
  the two user queries (database unavailable); \<^verbatim>\<open>receiver.username\<close> and
  \<^verbatim>\<open>sender.username\<close> when a query returned \<^verbatim>\<open>None\<close>; the renderer; and
  \<^verbatim>\<open>os.path.exists(temp_screenshot_path)\<close> inside the \<^verbatim>\<open>with zipfile.ZipFile\<close>
  block when no screenshot was copied, because \<^verbatim>\<open>temp_screenshot_path\<close> is assigned
  only in the branch that copies it. At that point the ZIP file is open and the JSON
  member is written; leaving the block closes the file.
\<close>

definition generate_evidence_report ::
    "env \<Rightarrow> state \<Rightarrow> int \<Rightarrow> int \<Rightarrow> incident list \<Rightarrow> state \<times> (error + nat)" where
  "generate_evidence_report e s sender_id receiver_id msgs =
     (if \<not> db_available e then (s, Inl OperationalError)
      else (case db_users e receiver_id of
        None \<Rightarrow> (s, Inl AttributeError)
      | Some receiver \<Rightarrow>
        (case db_users e sender_id of
          None \<Rightarrow> (s, Inl AttributeError)
        | Some sender \<Rightarrow>
          let report = build_report_data sender_id receiver_id msgs;
              timestamp = now e
          in (case generate_evidence_screenshot e msgs of
                Inl err \<Rightarrow> (s, Inl err)
              | Inr None \<Rightarrow>
                  (s\<lparr>archives := archives s
                       @ [\<lparr>zip_path = timestamp, zip_members = [Json_report report]\<rparr>]\<rparr>,
                   Inl UnboundLocalError)
              | Inr (Some screenshot_path) \<Rightarrow>
                  (s\<lparr>archives := archives s
                       @ [\<lparr>zip_path = timestamp,
                           zip_members = [Json_report report, Screenshot, Readme]\<rparr>]\<rparr>,
                   Inr timestamp)))))"

definition new_pair_state :: "env \<Rightarrow> pair_state" where
  "new_pair_state e = \<lparr>count = 0, messages = [], last_reset = now e\<rparr>"

definition warning_alert :: payload where
  "warning_alert = Alert ''warning''
     ''We've detected potentially abusive content in a recent message. Please be respectful in your communications.''"

definition block_alert :: payload where
  "block_alert = Alert ''critical''
     ''User has been automatically blocked due to multiple abusive messages. Reports have been generated.''"

text \<open>The guarded send of an alert (lines 105/106 and 126/127).\<close>

definition send_alert :: "state \<Rightarrow> int \<Rightarrow> payload \<Rightarrow> state" where
  "send_alert s receiver_id p =
     (case active_connections s receiver_id of
        Some websocket \<Rightarrow> send_text s websocket p
      | None \<Rightarrow> s)"

text \<open>Lines 62 to 79: create the pair's entry if it is missing, add one to the counter,
  append the incident. \<^verbatim>\<open>message_data["id"]\<close> is read after the counter is
  incremented, so a missing key leaves the increment behind.\<close>

definition incident_of :: "env \<Rightarrow> message_data \<Rightarrow> int \<Rightarrow> incident" where
  "incident_of e message_data i =
     \<lparr>inc_id = i, inc_content = md_content message_data,
      inc_abuse_score = md_abuse_score message_data,
      inc_timestamp = now e, inc_abuse_type = None\<rparr>"

definition record_incident :: "env \<Rightarrow> state \<Rightarrow> message_data \<Rightarrow> state \<times> error option" where
  "record_incident e s message_data =
     (let pair_key = (md_sender_id message_data, md_receiver_id message_data);
          entry = (case abuse_counters s pair_key of
                     None \<Rightarrow> new_pair_state e
                   | Some st \<Rightarrow> st);
          counted = entry\<lparr>count := count entry + 1\<rparr>
      in (case md_id message_data of
            None \<Rightarrow> (s\<lparr>abuse_counters := (abuse_counters s)(pair_key \<mapsto> counted)\<rparr>, Some KeyError)
          | Some i \<Rightarrow>
              (s\<lparr>abuse_counters := (abuse_counters s)(pair_key \<mapsto>
                   counted\<lparr>messages := messages counted @ [incident_of e message_data i]\<rparr>)\<rparr>,
               None)))"

text \<open>\<^verbatim>\<open>self.abuse_counters[pair_key]["messages"][-1]\<close>.\<close>

definition newest_incident :: "state \<Rightarrow> int \<times> int \<Rightarrow> error + incident" where
  "newest_incident s pair_key =
     (case abuse_counters s pair_key of
        None \<Rightarrow> Inl KeyError
      | Some st \<Rightarrow> if messages st = [] then Inl IndexError else Inr (last (messages st)))"

definition block_row :: "int \<Rightarrow> int \<Rightarrow> blocked_row" where
  "block_row sender_id receiver_id =
     \<lparr>blk_user_id = receiver_id, blk_blocked_user_id = sender_id,
      blk_reason = ''Multiple instances of abusive messages detected''\<rparr>"

text \<open>Lines 97 to 134: the thresholds.\<close>

definition apply_thresholds :: "env \<Rightarrow> state \<Rightarrow> int \<Rightarrow> int \<Rightarrow> state \<times> error option" where
  "apply_thresholds e s sender_id receiver_id =
     (let pair_key = (sender_id, receiver_id)
      in (case abuse_counters s pair_key of
            None \<Rightarrow> (s, Some KeyError)
          | Some st \<Rightarrow>
              if count st = 1 then (send_alert s receiver_id warning_alert, None)
              else if count st \<ge> 3 then
                (if \<not> db_available e then (s, Some OperationalError)
                 else
                   let s1 = s\<lparr>db_blocked := db_blocked s @ [block_row sender_id receiver_id]\<rparr>;
                       s2 = send_alert s1 receiver_id block_alert
                   in (s2\<lparr>abuse_counters := (abuse_counters s2)(pair_key \<mapsto> new_pair_state e)\<rparr>,
                       None))
              else (s, None)))"

text \<open>Lines 87 to 95: the report row and its commit.\<close>

definition add_report :: "state \<Rightarrow> int \<Rightarrow> int \<Rightarrow> int \<Rightarrow> nat \<Rightarrow> state" where
  "add_report s sender_id receiver_id message_id evidence_path =
     s\<lparr>db_reports := db_reports s @
        [\<lparr>rep_user_id = receiver_id, rep_reported_user_id = sender_id,
          rep_message_id = message_id, rep_evidence_file_path = evidence_path,
          rep_status = ''pending''\<rparr>]\<rparr>"

text \<open>\<^verbatim>\<open>handle_abusive_message\<close>. The parameter \<^verbatim>\<open>analysis\<close> is not used by the
  body. An error of any step is returned at once, with the state as that step left it.\<close>

definition handle_abusive_message ::
    "env \<Rightarrow> state \<Rightarrow> message_data \<Rightarrow> analysis \<Rightarrow> state \<times> error option" where
  "handle_abusive_message e s message_data analysis =
     (let sender_id = md_sender_id message_data;
          receiver_id = md_receiver_id message_data;
          pair_key = (sender_id, receiver_id)
      in (case record_incident e s message_data of
            (s1, Some err) \<Rightarrow> (s1, Some err)
          | (s1, None) \<Rightarrow>
             (case newest_incident s1 pair_key of
                Inl err \<Rightarrow> (s1, Some err)
              | Inr newest \<Rightarrow>
                 (case generate_evidence_report e s1 sender_id receiver_id [newest] of
                    (s2, Inl err) \<Rightarrow> (s2, Some err)
                  | (s2, Inr evidence_path) \<Rightarrow>
                     (case md_id message_data of
                        None \<Rightarrow> (s2, Some KeyError)
                      | Some i \<Rightarrow>
                         if \<not> db_available e then (s2, Some OperationalError)
                         else apply_thresholds e
                                (add_report s2 sender_id receiver_id i evidence_path)
                                sender_id receiver_id)))))"

subsection \<open>One turn of the loop of \<^verbatim>\<open>websocket_endpoint\<close>\<close>

text \<open>
  From the JSON text received to the forward. An exception other than
  \<^verbatim>\<open>WebSocketDisconnect\<close> is not caught by the loop: it ends the turn where it was
  raised.
\<close>

definition classify_inbound :: "inbound \<Rightarrow> message_data \<times> analysis" where
  "classify_inbound m =
     (case analyze_text (in_content m) of
        (is_abusive, abuse_score, analysis) \<Rightarrow>
          (\<lparr>md_sender_id = in_sender_id m, md_receiver_id = in_receiver_id m,
            md_content = in_content m, md_is_abusive = is_abusive,
            md_abuse_score = abuse_score,
            md_abuse_type = (if is_abusive then get_classification analysis else None),
            md_id = None\<rparr>, analysis))"

definition websocket_turn :: "env \<Rightarrow> state \<Rightarrow> inbound \<Rightarrow> state \<times> error option" where
  "websocket_turn e s m =
     (case classify_inbound m of
        (message_data, analysis) \<Rightarrow>
          (case store_message e s message_data of
             (s1, Inl err) \<Rightarrow> (s1, Some err)
           | (s1, Inr stored) \<Rightarrow>
              (case (if md_is_abusive stored
                     then handle_abusive_message e s1 stored analysis
                     else (s1, None)) of
                 (s2, Some err) \<Rightarrow> (s2, Some err)
               | (s2, None) \<Rightarrow>
                   (send_personal_message s2 stored (md_receiver_id stored), None))))"

text \<open>The states the running server can be in: from the initial manager, by connecting,
  disconnecting, and turns of the message loop under any answers of the collaborators.\<close>

inductive reachable :: "state \<Rightarrow> bool" where
  reach_init: "reachable init_state"
| reach_connect: "reachable s \<Longrightarrow> reachable (connect s websocket user_id)"
| reach_disconnect: "reachable s \<Longrightarrow> reachable (disconnect s user_id)"
| reach_turn: "reachable s \<Longrightarrow> reachable (fst (websocket_turn e s m))"

subsection \<open>Observations and sample data\<close>

text \<open>A pair's counter and log as the dictionary shows them; a pair without an entry has
  counter \<open>0\<close> and an empty log, which is what the handler creates for it.\<close>

definition pair_count :: "state \<Rightarrow> int \<times> int \<Rightarrow> nat" where
  "pair_count s pair_key = (case abuse_counters s pair_key of None \<Rightarrow> 0 | Some st \<Rightarrow> count st)"

definition pair_log :: "state \<Rightarrow> int \<times> int \<Rightarrow> incident list" where
  "pair_log s pair_key = (case abuse_counters s pair_key of None \<Rightarrow> [] | Some st \<Rightarrow> messages st)"

text \<open>The counter of every pair equals the length of its log.\<close>

definition counters_match :: "state \<Rightarrow> bool" where
  "counters_match s =
     (\<forall>pair_key st. abuse_counters s pair_key = Some st \<longrightarrow> count st = length (messages st))"

text \<open>What a guarded send of \<open>p\<close> to \<open>user_id\<close> puts on the wire.\<close>

definition wire :: "state \<Rightarrow> int \<Rightarrow> payload \<Rightarrow> (nat \<times> payload) list" where
  "wire s user_id p =
     (case active_connections s user_id of None \<Rightarrow> [] | Some websocket \<Rightarrow> [(websocket, p)])"

text \<open>Sample data for the concrete runs: users 1 (bob, the sender) and 2 (alice, the
  receiver) exist, user 3 does not; alice is connected on socket 7.\<close>

definition sample_users :: "int \<rightharpoonup> user" where
  "sample_users =
     [1 \<mapsto> \<lparr>username = ''bob'', full_name = ''Bob Smith'', email = ''bob@test.com''\<rparr>,
      2 \<mapsto> \<lparr>username = ''alice'', full_name = ''Alice Johnson'', email = ''alice@test.com''\<rparr>]"

definition sample_env :: env where
  "sample_env = \<lparr>now = 100, db_users = sample_users, db_available = True, renderer = Render_saved\<rparr>"

definition alice_online :: state where
  "alice_online = connect init_state 7 2"

definition stored_msg :: "int \<Rightarrow> int \<Rightarrow> int \<Rightarrow> message_data" where
  "stored_msg sender_id receiver_id i =
     \<lparr>md_sender_id = sender_id, md_receiver_id = receiver_id, md_content = ''I hate you'',
      md_is_abusive = True, md_abuse_score = 9.0, md_abuse_type = Some CYBERBULLYING,
      md_id = Some i\<rparr>"

definition abusive_inbound :: "int \<Rightarrow> int \<Rightarrow> inbound" where
  "abusive_inbound sender_id receiver_id =
     \<lparr>in_sender_id = sender_id, in_receiver_id = receiver_id, in_content = ''I hate you''\<rparr>"

definition friendly_inbound :: "int \<Rightarrow> int \<Rightarrow> inbound" where
  "friendly_inbound sender_id receiver_id =
     \<lparr>in_sender_id = sender_id, in_receiver_id = receiver_id, in_content = ''Good morning''\<rparr>"

text \<open>The sample environment with a renderer that raises, and with the database down.\<close>

definition env_render_fails :: env where
  "env_render_fails = sample_env\<lparr>renderer := Render_raises\<rparr>"

definition env_db_down :: env where
  "env_db_down = sample_env\<lparr>db_available := False\<rparr>"

text \<open>The state a call of the handler leaves behind, and the message as
  \<^verbatim>\<open>store_message\<close> returns it.\<close>

definition handled :: "env \<Rightarrow> state \<Rightarrow> message_data \<Rightarrow> state" where
  "handled e s m = fst (handle_abusive_message e s m (Reason []))"

definition stored_form :: "state \<Rightarrow> inbound \<Rightarrow> message_data" where
  "stored_form s m =
     (fst (classify_inbound m))\<lparr>md_id := Some (int (length (db_messages s)) + 1)\<rparr>"

subsection \<open>The priority rule in the words of the specification\<close>






section \<open>Properties\<close>

subsection \<open>The scanning loops\<close>

lemma scan_keywords_eq:
  "scan_keywords tbl t (s, d) =
     (fold max (map snd (filter (\<lambda>(k, w). str_in k t) tbl)) s,
      d @ map fst (filter (\<lambda>(k, w). str_in k t) tbl))"
  by (induction tbl arbitrary: s d) (auto simp: max.commute)

lemma scan_phrases_eq:
  "scan_phrases ps t (s, d) =
     (fold max (map (\<lambda>p. 7.0) (filter (\<lambda>p. str_in p t) ps)) s,
      d @ filter (\<lambda>p. str_in p t) ps)"
  by (induction ps arbitrary: s d) (auto simp: max.commute)

lemma scan_patterns_fst:
  "fst (scan_patterns ps t (s, d)) =
     (if list_ex (\<lambda>p. findall p t \<noteq> []) ps then max s 7.0 else s)"
  by (induction ps arbitrary: s d) (auto simp: Let_def)

lemma fold_max_Max: "fold max ws (s::real) = Max (insert s (set ws))"
  using Max.set_eq_fold [of s ws] by simp

lemma keyword_scan_fold: "fst (keyword_scan t) = fold max (matched_weights t) 0"
  by (simp add: keyword_scan_def scan_keywords_eq scan_phrases_eq matched_weights_def)

lemma keyword_scan_fst: "fst (keyword_scan t) = Max (insert 0 (set (matched_weights t)))"
  by (simp only: keyword_scan_fold fold_max_Max)

lemma keyword_scan_nonneg: "0 \<le> fst (keyword_scan t)"
  by (simp add: keyword_scan_fst)

lemma pattern_scan_fst:
  "fst (pattern_scan t s) = (if pattern_hit t then max s 7.0 else s)"
  by (simp add: pattern_scan_def pattern_hit_def scan_patterns_fst)

lemma adjust_score_le: "adjust_score text low s \<le> 10"
  by (simp add: adjust_score_def Let_def)

lemma adjust_score_ge: "0 \<le> s \<Longrightarrow> 0 \<le> adjust_score text low s"
  by (simp add: adjust_score_def Let_def)

subsection \<open>Score range and threshold\<close>

text \<open>
  Claim C1. For every text, the score that \<^verbatim>\<open>analyze_text\<close> returns lies in the
  closed interval from 0 to 10, and the returned flag \<^verbatim>\<open>is_abusive\<close> is true exactly
  when the returned score is at least 4.0.
\<close>

theorem analyze_text_score_range:
  "(case analyze_text t of (is_abusive, abuse_score, details) \<Rightarrow>
      0 \<le> abuse_score \<and> abuse_score \<le> 10 \<and> (is_abusive \<longleftrightarrow> abuse_score \<ge> 4.0))"
proof (cases "t = [] \<or> strip t = []")
  case True
  then show ?thesis by (simp add: analyze_text_def)
next
  case False
  let ?low = "strip (lower t)"
  have "0 \<le> fst (pattern_scan ?low (fst (keyword_scan ?low)))"
    using keyword_scan_nonneg [of ?low] by (auto simp: pattern_scan_fst max_def)
  then have "0 \<le> adjust_score t ?low (fst (pattern_scan ?low (fst (keyword_scan ?low))))"
    by (rule adjust_score_ge)
  with False show ?thesis
    by (simp add: analyze_text_def Let_def adjust_score_le)
qed

text \<open>The theorem at the text \<^verbatim>\<open>I will kill you\<close>, whose score is 10.\<close>

theorem analyze_text_score_range_witness:
  "(case analyze_text ''I will kill you'' of (is_abusive, abuse_score, details) \<Rightarrow>
      0 \<le> abuse_score \<and> abuse_score \<le> 10 \<and> (is_abusive \<longleftrightarrow> abuse_score \<ge> 4.0))
   \<and> fst (snd (analyze_text ''I will kill you'')) = 10"
proof -
  have "fst (snd (analyze_text ''I will kill you'')) = 10" by code_simp
  with analyze_text_score_range [of "''I will kill you''"] show ?thesis by simp
qed

subsection \<open>The running score is a maximum\<close>

lemma analyze_text_nonempty:
  "text \<noteq> [] \<Longrightarrow> strip text \<noteq> [] \<Longrightarrow>
   fst (snd (analyze_text text)) =
     adjust_score text (strip (lower text))
       (fst (pattern_scan (strip (lower text)) (fst (keyword_scan (strip (lower text))))))"
  by (simp add: analyze_text_def Let_def)

lemma adjust_score_plain:
  "\<not> (caps_ratio_of text > 0.7 \<and> length text > 10) \<Longrightarrow> \<not> punct_ratio_of text > 0.2 \<Longrightarrow>
   adjust_score text low s = min s 10"
  by (auto simp add: adjust_score_def Let_def)

text \<open>
  Claim C6. The running score after the keyword and phrase loops is the maximum of the
  weights of all matched keywords and phrases (0 when there is none), not their sum; a
  match of any structural pattern raises it to at least 7.0 and no pattern match leaves
  it as it is; so a text that matches no keyword, phrase or pattern and triggers neither
  stylistic adjustment has score 0, and a single matched keyword of weight \<open>w\<close> gives the
  running score \<open>w\<close>.
\<close>

theorem running_score_is_max:
  "fst (keyword_scan t) = Max (insert 0 (set (matched_weights t)))
   \<and> (pattern_hit t \<longrightarrow> 7.0 \<le> fst (pattern_scan t (fst (keyword_scan t))))
   \<and> (\<not> pattern_hit t \<longrightarrow>
        fst (pattern_scan t (fst (keyword_scan t))) = Max (insert 0 (set (matched_weights t))))
   \<and> (\<not> pattern_hit t \<longrightarrow> matched_weights t = [w] \<longrightarrow> 0 \<le> w \<longrightarrow>
        fst (pattern_scan t (fst (keyword_scan t))) = w)
   \<and> (text \<noteq> [] \<longrightarrow> strip text \<noteq> [] \<longrightarrow> t = strip (lower text) \<longrightarrow>
        fst (snd (analyze_text text)) =
          adjust_score text t (fst (pattern_scan t (fst (keyword_scan t)))))
   \<and> (text \<noteq> [] \<longrightarrow> strip text \<noteq> [] \<longrightarrow> t = strip (lower text) \<longrightarrow>
        matched_weights t = [] \<longrightarrow> \<not> pattern_hit t \<longrightarrow>
        \<not> (caps_ratio_of text > 0.7 \<and> length text > 10) \<longrightarrow> \<not> punct_ratio_of text > 0.2 \<longrightarrow>
        fst (snd (analyze_text text)) = 0)"
proof -
  have a: "fst (keyword_scan t) = Max (insert 0 (set (matched_weights t)))"
    by (rule keyword_scan_fst)
  have b: "pattern_hit t \<Longrightarrow> 7.0 \<le> fst (pattern_scan t (fst (keyword_scan t)))"
    by (simp add: pattern_scan_fst)
  have c: "\<not> pattern_hit t \<Longrightarrow>
        fst (pattern_scan t (fst (keyword_scan t))) = Max (insert 0 (set (matched_weights t)))"
    by (simp add: pattern_scan_fst a)
  have d: "\<not> pattern_hit t \<Longrightarrow> matched_weights t = [w] \<Longrightarrow> 0 \<le> w \<Longrightarrow>
        fst (pattern_scan t (fst (keyword_scan t))) = w"
    by (simp add: c max_def)
  have e: "text \<noteq> [] \<Longrightarrow> strip text \<noteq> [] \<Longrightarrow> t = strip (lower text) \<Longrightarrow>
        fst (snd (analyze_text text)) =
          adjust_score text t (fst (pattern_scan t (fst (keyword_scan t))))"
    by (simp add: analyze_text_nonempty)
  have f: "text \<noteq> [] \<Longrightarrow> strip text \<noteq> [] \<Longrightarrow> t = strip (lower text) \<Longrightarrow>
        matched_weights t = [] \<Longrightarrow> \<not> pattern_hit t \<Longrightarrow>
        \<not> (caps_ratio_of text > 0.7 \<and> length text > 10) \<Longrightarrow> \<not> punct_ratio_of text > 0.2 \<Longrightarrow>
        fst (snd (analyze_text text)) = 0"
    using c by (simp add: analyze_text_nonempty adjust_score_plain)
  from a b c d e f show ?thesis by blast
qed

text \<open>The theorem at three texts: \<^verbatim>\<open>you are so kind\<close> matches a pattern and nothing
  else; \<^verbatim>\<open>what an idiot\<close> matches the single keyword of weight 5; \<^verbatim>\<open>Good morning\<close>
  matches nothing.\<close>

theorem running_score_is_max_witness:
  "pattern_hit ''you are so kind''
   \<and> 7.0 \<le> fst (pattern_scan ''you are so kind'' (fst (keyword_scan ''you are so kind'')))
   \<and> \<not> pattern_hit ''what an idiot'' \<and> matched_weights ''what an idiot'' = [5]
   \<and> fst (pattern_scan ''what an idiot'' (fst (keyword_scan ''what an idiot''))) = 5
   \<and> ''Good morning'' \<noteq> [] \<and> strip ''Good morning'' \<noteq> []
   \<and> ''good morning'' = strip (lower ''Good morning'')
   \<and> matched_weights ''good morning'' = [] \<and> \<not> pattern_hit ''good morning''
   \<and> \<not> (caps_ratio_of ''Good morning'' > 0.7 \<and> length ''Good morning'' > 10)
   \<and> \<not> punct_ratio_of ''Good morning'' > 0.2
   \<and> fst (snd (analyze_text ''Good morning'')) = 0"
proof -
  have h1: "pattern_hit ''you are so kind''" by code_simp
  have h2: "\<not> pattern_hit ''what an idiot''" by code_simp
  have h3: "matched_weights ''what an idiot'' = [5]" by code_simp
  have h4: "''Good morning'' \<noteq> []" by simp
  have h5: "strip ''Good morning'' \<noteq> []" by code_simp
  have h6: "''good morning'' = strip (lower ''Good morning'')" by code_simp
  have h7: "matched_weights ''good morning'' = []" by code_simp
  have h8: "\<not> pattern_hit ''good morning''" by code_simp
  have h9: "\<not> (caps_ratio_of ''Good morning'' > 0.7 \<and> length ''Good morning'' > 10)" by code_simp
  have h10: "\<not> punct_ratio_of ''Good morning'' > 0.2" by code_simp
  have p1: "7.0 \<le> fst (pattern_scan ''you are so kind'' (fst (keyword_scan ''you are so kind'')))"
    using running_score_is_max [of "''you are so kind''" 5 "''Good morning''"] h1 by blast
  have p2: "fst (pattern_scan ''what an idiot'' (fst (keyword_scan ''what an idiot''))) = 5"
  proof -
    have "(0::real) \<le> 5" by simp
    with running_score_is_max [of "''what an idiot''" 5 "''Good morning''"] h2 h3
    show ?thesis by blast
  qed
  have p3: "fst (snd (analyze_text ''Good morning'')) = 0"
    using running_score_is_max [of "''good morning''" 5 "''Good morning''"]
      h4 h5 h6 h7 h8 h9 h10 by blast
  from h1 h2 h3 h4 h5 h6 h7 h8 h9 h10 p1 p2 p3 show ?thesis by blast
qed

subsection \<open>Category classification\<close>


















subsection \<open>The phases of \<^verbatim>\<open>handle_abusive_message\<close>\<close>

lemma record_incident_ok: "(snd (record_incident e s m) = None) = (md_id m \<noteq> None)"
  by (simp add: record_incident_def Let_def split: option.splits)

lemma record_incident_entry:
  assumes "md_id m = Some i"
  shows "abuse_counters (fst (record_incident e s m)) (md_sender_id m, md_receiver_id m) =
           Some \<lparr>count = pair_count s (md_sender_id m, md_receiver_id m) + 1,
                 messages = pair_log s (md_sender_id m, md_receiver_id m) @ [incident_of e m i],
                 last_reset = (case abuse_counters s (md_sender_id m, md_receiver_id m) of
                                 None \<Rightarrow> now e | Some st \<Rightarrow> last_reset st)\<rparr>"
  using assms
  by (simp add: record_incident_def pair_count_def pair_log_def new_pair_state_def Let_def
      split: option.splits)

lemma record_incident_count:
  "pair_count (fst (record_incident e s m)) (md_sender_id m, md_receiver_id m)
     = pair_count s (md_sender_id m, md_receiver_id m) + 1"
  by (simp add: record_incident_def pair_count_def new_pair_state_def Let_def split: option.splits)

lemma record_incident_other:
  "k \<noteq> (md_sender_id m, md_receiver_id m) \<Longrightarrow>
   abuse_counters (fst (record_incident e s m)) k = abuse_counters s k"
  by (simp add: record_incident_def Let_def split: option.splits)

lemma record_incident_frame:
  "active_connections (fst (record_incident e s m)) = active_connections s"
  "sent (fst (record_incident e s m)) = sent s"
  "db_blocked (fst (record_incident e s m)) = db_blocked s"
  "db_reports (fst (record_incident e s m)) = db_reports s"
  "db_messages (fst (record_incident e s m)) = db_messages s"
  "archives (fst (record_incident e s m)) = archives s"
  by (simp_all add: record_incident_def Let_def split: option.splits)

lemma newest_after_record:
  assumes "md_id m = Some i"
  shows "newest_incident (fst (record_incident e s m)) (md_sender_id m, md_receiver_id m)
           = Inr (incident_of e m i)"
  by (simp add: newest_incident_def record_incident_entry [OF assms])

lemma gen_frame:
  "active_connections (fst (generate_evidence_report e s a b ms)) = active_connections s"
  "abuse_counters (fst (generate_evidence_report e s a b ms)) = abuse_counters s"
  "sent (fst (generate_evidence_report e s a b ms)) = sent s"
  "db_blocked (fst (generate_evidence_report e s a b ms)) = db_blocked s"
  "db_reports (fst (generate_evidence_report e s a b ms)) = db_reports s"
  "db_messages (fst (generate_evidence_report e s a b ms)) = db_messages s"
  by (simp_all add: generate_evidence_report_def Let_def split: option.splits sum.splits)

lemma gen_ok_archives:
  "snd (generate_evidence_report e s a b ms) = Inr p \<Longrightarrow>
   archives (fst (generate_evidence_report e s a b ms)) =
     archives s @ [\<lparr>zip_path = p,
       zip_members = [Json_report (build_report_data a b ms), Screenshot, Readme]\<rparr>]"
  by (auto simp add: generate_evidence_report_def Let_def split: option.splits sum.splits if_splits)

lemma gen_ok_db: "snd (generate_evidence_report e s a b ms) = Inr p \<Longrightarrow> db_available e"
  by (auto simp add: generate_evidence_report_def split: if_splits)

lemma gen_err_archives:
  "snd (generate_evidence_report e s a b ms) = Inl err \<Longrightarrow> ms \<noteq> [] \<Longrightarrow>
   fst (generate_evidence_report e s a b ms) = s"
  by (auto simp add: generate_evidence_report_def generate_evidence_screenshot_def Let_def
      split: option.splits sum.splits if_splits render_outcome.splits)

lemma send_alert_sent: "sent (send_alert s b p) = sent s @ wire s b p"
  by (simp add: send_alert_def wire_def send_text_def split: option.splits)

lemma send_alert_frame:
  "active_connections (send_alert s b p) = active_connections s"
  "abuse_counters (send_alert s b p) = abuse_counters s"
  "db_blocked (send_alert s b p) = db_blocked s"
  "db_reports (send_alert s b p) = db_reports s"
  "db_messages (send_alert s b p) = db_messages s"
  "archives (send_alert s b p) = archives s"
  by (simp_all add: send_alert_def send_text_def split: option.splits)

lemma add_report_frame:
  "active_connections (add_report s a b i p) = active_connections s"
  "abuse_counters (add_report s a b i p) = abuse_counters s"
  "db_blocked (add_report s a b i p) = db_blocked s"
  "sent (add_report s a b i p) = sent s"
  "db_messages (add_report s a b i p) = db_messages s"
  "archives (add_report s a b i p) = archives s"
  "length (db_reports (add_report s a b i p)) = length (db_reports s) + 1"
  by (simp_all add: add_report_def)

text \<open>The thresholds, by the value of the counter they find.\<close>

lemma thresholds_result:
  assumes "abuse_counters s (a, b) = Some st" and "db_available e"
  shows "snd (apply_thresholds e s a b) = None"
    and "sent (fst (apply_thresholds e s a b)) =
           sent s @ (if count st = 1 then wire s b warning_alert
                     else if 3 \<le> count st then wire s b block_alert else [])"
    and "db_blocked (fst (apply_thresholds e s a b)) =
           db_blocked s @ (if 3 \<le> count st then [block_row a b] else [])"
    and "pair_count (fst (apply_thresholds e s a b)) (a, b) = (if 3 \<le> count st then 0 else count st)"
    and "pair_log (fst (apply_thresholds e s a b)) (a, b) = (if 3 \<le> count st then [] else messages st)"
    and "active_connections (fst (apply_thresholds e s a b)) = active_connections s"
    and "archives (fst (apply_thresholds e s a b)) = archives s"
    and "db_reports (fst (apply_thresholds e s a b)) = db_reports s"
    and "db_messages (fst (apply_thresholds e s a b)) = db_messages s"
  using assms
  by (simp_all add: apply_thresholds_def pair_count_def pair_log_def Let_def
      new_pair_state_def send_alert_sent send_alert_frame wire_def)

lemma thresholds_match:
  assumes "counters_match s"
  shows "counters_match (fst (apply_thresholds e s a b))"
  using assms
  by (auto simp add: apply_thresholds_def counters_match_def Let_def new_pair_state_def
      send_alert_frame split: option.splits if_splits)

subsection \<open>\<^verbatim>\<open>handle_abusive_message\<close> as a whole\<close>

lemma handle_without_id:
  "md_id m = None \<Longrightarrow>
   handle_abusive_message e s m an = (fst (record_incident e s m), Some KeyError)"
  by (simp add: handle_abusive_message_def record_incident_def Let_def)

lemma handle_with_id:
  assumes "md_id m = Some i"
  shows "handle_abusive_message e s m an =
     (case generate_evidence_report e (fst (record_incident e s m))
             (md_sender_id m) (md_receiver_id m) [incident_of e m i] of
        (s2, Inl err) \<Rightarrow> (s2, Some err)
      | (s2, Inr p) \<Rightarrow>
          if \<not> db_available e then (s2, Some OperationalError)
          else apply_thresholds e (add_report s2 (md_sender_id m) (md_receiver_id m) i p)
                 (md_sender_id m) (md_receiver_id m))"
proof -
  obtain s1 r where R: "record_incident e s m = (s1, r)" by fastforce
  with record_incident_ok [of e s m] assms have r: "r = None" by simp
  from newest_after_record [OF assms, of e s] R
  have N: "newest_incident s1 (md_sender_id m, md_receiver_id m) = Inr (incident_of e m i)"
    by simp
  show ?thesis
    by (simp add: handle_abusive_message_def Let_def R r N assms)
qed

text \<open>A call that returns: what it did, by the value \<open>n\<close> the counter reached.\<close>

lemma handle_ok_result:
  assumes ok: "snd (handle_abusive_message e s m an) = None"
  shows "sent (fst (handle_abusive_message e s m an)) =
           sent s @ (if pair_count s (md_sender_id m, md_receiver_id m) + 1 = 1
                     then wire s (md_receiver_id m) warning_alert
                     else if 3 \<le> pair_count s (md_sender_id m, md_receiver_id m) + 1
                     then wire s (md_receiver_id m) block_alert else [])"
    and "db_blocked (fst (handle_abusive_message e s m an)) =
           db_blocked s @ (if 3 \<le> pair_count s (md_sender_id m, md_receiver_id m) + 1
                           then [block_row (md_sender_id m) (md_receiver_id m)] else [])"
    and "pair_count (fst (handle_abusive_message e s m an)) (md_sender_id m, md_receiver_id m) =
           (if 3 \<le> pair_count s (md_sender_id m, md_receiver_id m) + 1 then 0
            else pair_count s (md_sender_id m, md_receiver_id m) + 1)"
    and "length (pair_log (fst (handle_abusive_message e s m an)) (md_sender_id m, md_receiver_id m)) =
           (if 3 \<le> pair_count s (md_sender_id m, md_receiver_id m) + 1 then 0
            else length (pair_log s (md_sender_id m, md_receiver_id m)) + 1)"
    and "active_connections (fst (handle_abusive_message e s m an)) = active_connections s"
    and "length (archives (fst (handle_abusive_message e s m an))) = length (archives s) + 1"
    and "length (db_reports (fst (handle_abusive_message e s m an))) = length (db_reports s) + 1"
proof -
  let ?a = "md_sender_id m" and ?b = "md_receiver_id m"
  let ?s1 = "fst (record_incident e s m)"
  from ok obtain i where id: "md_id m = Some i"
    by (cases "md_id m") (simp_all add: handle_without_id)
  obtain s2 r where G: "generate_evidence_report e ?s1 ?a ?b [incident_of e m i] = (s2, r)"
    by fastforce
  from ok id G obtain p where r: "r = Inr p"
    by (cases r) (simp_all add: handle_with_id)
  from G r have snd_G: "snd (generate_evidence_report e ?s1 ?a ?b [incident_of e m i]) = Inr p"
    by simp
  from gen_ok_db [OF snd_G] have db: "db_available e" .
  let ?s3 = "add_report s2 ?a ?b i p"
  have H: "handle_abusive_message e s m an = apply_thresholds e ?s3 ?a ?b"
    by (simp add: handle_with_id [OF id] G r db)
  have s2: "s2 = fst (generate_evidence_report e ?s1 ?a ?b [incident_of e m i])"
    by (simp add: G)
  have C: "abuse_counters ?s3 (?a, ?b) =
      Some \<lparr>count = pair_count s (?a, ?b) + 1,
            messages = pair_log s (?a, ?b) @ [incident_of e m i],
            last_reset = (case abuse_counters s (?a, ?b) of
                            None \<Rightarrow> now e | Some st \<Rightarrow> last_reset st)\<rparr>"
    by (simp add: add_report_frame s2 gen_frame record_incident_entry [OF id])
  have F: "sent ?s3 = sent s" "db_blocked ?s3 = db_blocked s"
    "active_connections ?s3 = active_connections s"
    "length (archives ?s3) = length (archives s) + 1"
    "length (db_reports ?s3) = length (db_reports s) + 1"
    by (simp_all add: add_report_frame s2 gen_frame record_incident_frame
        gen_ok_archives [OF snd_G])
  have W: "wire ?s3 ?b q = wire s ?b q" for q
    by (simp add: wire_def F)
  note T = thresholds_result [OF C db]
  show "sent (fst (handle_abusive_message e s m an)) =
           sent s @ (if pair_count s (?a, ?b) + 1 = 1 then wire s ?b warning_alert
                     else if 3 \<le> pair_count s (?a, ?b) + 1 then wire s ?b block_alert else [])"
    by (simp add: H T(2) F W)
  show "db_blocked (fst (handle_abusive_message e s m an)) =
           db_blocked s @ (if 3 \<le> pair_count s (?a, ?b) + 1 then [block_row ?a ?b] else [])"
    by (simp add: H T(3) F)
  show "pair_count (fst (handle_abusive_message e s m an)) (?a, ?b) =
           (if 3 \<le> pair_count s (?a, ?b) + 1 then 0 else pair_count s (?a, ?b) + 1)"
    by (simp add: H T(4))
  show "length (pair_log (fst (handle_abusive_message e s m an)) (?a, ?b)) =
           (if 3 \<le> pair_count s (?a, ?b) + 1 then 0 else length (pair_log s (?a, ?b)) + 1)"
    by (simp add: H T(5))
  show "active_connections (fst (handle_abusive_message e s m an)) = active_connections s"
    by (simp add: H T(6) F)
  show "length (archives (fst (handle_abusive_message e s m an))) = length (archives s) + 1"
    by (simp add: H T(7) F)
  show "length (db_reports (fst (handle_abusive_message e s m an))) = length (db_reports s) + 1"
    by (simp add: H T(8) F)
qed

text \<open>A call that raises: the increment stays, nothing else was done.\<close>

lemma handle_err_result:
  assumes err: "snd (handle_abusive_message e s m an) = Some x"
  shows "sent (fst (handle_abusive_message e s m an)) = sent s"
    and "db_blocked (fst (handle_abusive_message e s m an)) = db_blocked s"
    and "db_reports (fst (handle_abusive_message e s m an)) = db_reports s"
    and "archives (fst (handle_abusive_message e s m an)) = archives s"
    and "active_connections (fst (handle_abusive_message e s m an)) = active_connections s"
    and "pair_count (fst (handle_abusive_message e s m an)) (md_sender_id m, md_receiver_id m) =
           pair_count s (md_sender_id m, md_receiver_id m) + 1"
proof -
  let ?a = "md_sender_id m" and ?b = "md_receiver_id m"
  let ?s1 = "fst (record_incident e s m)"
  let ?h = "handle_abusive_message e s m an"
  have "fst ?h = ?s1"
  proof (cases "md_id m")
    case None
    then show ?thesis by (simp add: handle_without_id)
  next
    case (Some i)
    obtain s2 r where G: "generate_evidence_report e ?s1 ?a ?b [incident_of e m i] = (s2, r)"
      by fastforce
    show ?thesis
    proof (cases r)
      case (Inl y)
      with G have "snd (generate_evidence_report e ?s1 ?a ?b [incident_of e m i]) = Inl y"
        by simp
      from gen_err_archives [OF this] G have "s2 = ?s1" by simp
      with G Inl show ?thesis by (simp add: handle_with_id [OF Some])
    next
      case (Inr p)
      with G have snd_G: "snd (generate_evidence_report e ?s1 ?a ?b [incident_of e m i]) = Inr p"
        by simp
      from gen_ok_db [OF snd_G] have db: "db_available e" .
      have H: "?h = apply_thresholds e (add_report s2 ?a ?b i p) ?a ?b"
        by (simp add: handle_with_id [OF Some] G Inr db)
      have s2: "s2 = fst (generate_evidence_report e ?s1 ?a ?b [incident_of e m i])"
        by (simp add: G)
      have "\<exists>st. abuse_counters (add_report s2 ?a ?b i p) (?a, ?b) = Some st"
        by (simp add: add_report_frame s2 gen_frame record_incident_entry [OF Some])
      then obtain st where "abuse_counters (add_report s2 ?a ?b i p) (?a, ?b) = Some st" ..
      from thresholds_result(1) [OF this db] H err show ?thesis by simp
    qed
  qed
  then show "sent (fst ?h) = sent s" "db_blocked (fst ?h) = db_blocked s"
    "db_reports (fst ?h) = db_reports s" "archives (fst ?h) = archives s"
    "active_connections (fst ?h) = active_connections s"
    "pair_count (fst ?h) (?a, ?b) = pair_count s (?a, ?b) + 1"
    by (simp_all add: record_incident_frame record_incident_count)
qed

subsection \<open>The counter equals the length of the log\<close>

lemma counters_match_same:
  "abuse_counters s' = abuse_counters s \<Longrightarrow> counters_match s' = counters_match s"
  by (simp add: counters_match_def)

lemma counters_match_pair:
  assumes "counters_match s"
  shows "pair_count s k = length (pair_log s k)"
proof (cases "abuse_counters s k")
  case None
  then show ?thesis by (simp add: pair_count_def pair_log_def)
next
  case (Some st)
  with assms have "count st = length (messages st)"
    unfolding counters_match_def by blast
  with Some show ?thesis by (simp add: pair_count_def pair_log_def)
qed

lemma record_incident_match:
  assumes id: "md_id m = Some i" and inv: "counters_match s"
  shows "counters_match (fst (record_incident e s m))"
  unfolding counters_match_def
proof (intro allI impI)
  fix k st
  assume L: "abuse_counters (fst (record_incident e s m)) k = Some st"
  show "count st = length (messages st)"
  proof (cases "k = (md_sender_id m, md_receiver_id m)")
    case True
    with L record_incident_entry [OF id, of e s]
    have "st = \<lparr>count = pair_count s k + 1, messages = pair_log s k @ [incident_of e m i],
                 last_reset = (case abuse_counters s k of None \<Rightarrow> now e | Some st \<Rightarrow> last_reset st)\<rparr>"
      by simp
    then show ?thesis by (simp add: counters_match_pair [OF inv])
  next
    case False
    with L have "abuse_counters s k = Some st" by (simp add: record_incident_other)
    with inv show ?thesis unfolding counters_match_def by blast
  qed
qed

lemma handle_match:
  assumes id: "md_id m = Some i" and inv: "counters_match s"
  shows "counters_match (fst (handle_abusive_message e s m an))"
proof -
  let ?a = "md_sender_id m" and ?b = "md_receiver_id m"
  let ?s1 = "fst (record_incident e s m)"
  have 1: "counters_match ?s1" by (rule record_incident_match [OF id inv])
  obtain s2 r where G: "generate_evidence_report e ?s1 ?a ?b [incident_of e m i] = (s2, r)"
    by fastforce
  then have "s2 = fst (generate_evidence_report e ?s1 ?a ?b [incident_of e m i])" by simp
  then have "abuse_counters s2 = abuse_counters ?s1" by (simp add: gen_frame)
  with 1 have 2: "counters_match s2"
    using counters_match_same [of s2 "fst (record_incident e s m)"] by simp
  then have 3: "counters_match (add_report s2 ?a ?b i p)" for p
    by (simp add: counters_match_same [of "add_report s2 ?a ?b i p" s2] add_report_frame)
  show ?thesis
    by (cases r) (simp_all add: handle_with_id [OF id] G 2 thresholds_match [OF 3])
qed

lemma send_personal_message_counters:
  "abuse_counters (send_personal_message s msg u) = abuse_counters s"
  by (simp add: send_personal_message_def send_text_def split: option.splits)

lemma websocket_turn_match:
  assumes "counters_match s"
  shows "counters_match (fst (websocket_turn e s m))"
proof -
  obtain md an where C: "classify_inbound m = (md, an)" by fastforce
  show ?thesis
  proof (cases "db_available e")
    case False
    with assms show ?thesis by (simp add: websocket_turn_def C store_message_def)
  next
    case True
    let ?stored = "md\<lparr>md_id := Some (int (length (db_messages s)) + 1)\<rparr>"
    let ?s1 = "s\<lparr>db_messages := db_messages s @ [?stored]\<rparr>"
    have S: "store_message e s md = (?s1, Inr ?stored)"
      by (simp add: store_message_def True Let_def)
    have 1: "counters_match ?s1"
      using assms by (simp add: counters_match_def)
    show ?thesis
    proof (cases "md_is_abusive ?stored")
      case False
      with 1 show ?thesis
        by (simp add: websocket_turn_def C S
            counters_match_same [OF send_personal_message_counters])
    next
      case True
      have id: "md_id ?stored = Some (int (length (db_messages s)) + 1)" by simp
      obtain s2 r where H: "handle_abusive_message e ?s1 ?stored an = (s2, r)" by fastforce
      from handle_match [OF id 1, of e an] H have 2: "counters_match s2" by simp
      with True show ?thesis
        by (cases r) (simp_all add: websocket_turn_def C S H
            counters_match_same [OF send_personal_message_counters])
    qed
  qed
qed

lemma reachable_match: "reachable s \<Longrightarrow> counters_match s"
proof (induction rule: reachable.induct)
  case reach_init
  then show ?case by (simp add: counters_match_def init_state_def)
next
  case (reach_connect s websocket user_id)
  then show ?case by (simp add: counters_match_def connect_def)
next
  case (reach_disconnect s user_id)
  then show ?case by (simp add: counters_match_def disconnect_def)
next
  case (reach_turn s e m)
  from reach_turn.IH show ?case by (rule websocket_turn_match)
qed


text \<open>
  Claim C10. In every state the server can reach, the incident counter of every pair
  equals the length of that pair's incident log: recording an incident adds one to the
  counter and appends one entry, and the reset at the block threshold sets the counter to
  0 and the log to the empty list together.
\<close>

theorem counter_equals_log_length:
  "(reachable s \<longrightarrow>
      (\<forall>pair_key st. abuse_counters s pair_key = Some st \<longrightarrow> count st = length (messages st))
      \<and> pair_count s k = length (pair_log s k))
   \<and> (md_id m = Some i \<longrightarrow>
        pair_count (fst (record_incident e s m)) (md_sender_id m, md_receiver_id m)
          = pair_count s (md_sender_id m, md_receiver_id m) + 1
        \<and> pair_log (fst (record_incident e s m)) (md_sender_id m, md_receiver_id m)
          = pair_log s (md_sender_id m, md_receiver_id m) @ [incident_of e m i])
   \<and> (abuse_counters s (a, b) = Some st' \<longrightarrow> 3 \<le> count st' \<longrightarrow> db_available e \<longrightarrow>
        pair_count (fst (apply_thresholds e s a b)) (a, b) = 0
        \<and> pair_log (fst (apply_thresholds e s a b)) (a, b) = [])"
proof -
  have A: "reachable s \<Longrightarrow>
      (\<forall>pair_key st. abuse_counters s pair_key = Some st \<longrightarrow> count st = length (messages st))
      \<and> pair_count s k = length (pair_log s k)"
    using reachable_match [of s] counters_match_pair [of s k]
    unfolding counters_match_def by blast
  have B: "md_id m = Some i \<Longrightarrow>
        pair_count (fst (record_incident e s m)) (md_sender_id m, md_receiver_id m)
          = pair_count s (md_sender_id m, md_receiver_id m) + 1
        \<and> pair_log (fst (record_incident e s m)) (md_sender_id m, md_receiver_id m)
          = pair_log s (md_sender_id m, md_receiver_id m) @ [incident_of e m i]"
    by (simp add: pair_count_def pair_log_def record_incident_entry)
  have C: "abuse_counters s (a, b) = Some st' \<Longrightarrow> 3 \<le> count st' \<Longrightarrow> db_available e \<Longrightarrow>
        pair_count (fst (apply_thresholds e s a b)) (a, b) = 0
        \<and> pair_log (fst (apply_thresholds e s a b)) (a, b) = []"
    by (simp add: thresholds_result)
  from A B C show ?thesis by blast
qed

text \<open>The theorem at the state after one abusive message from user 1 to user 2.\<close>

theorem counter_equals_log_length_witness:
  "reachable (fst (websocket_turn sample_env alice_online (abusive_inbound 1 2)))
   \<and> pair_count (fst (websocket_turn sample_env alice_online (abusive_inbound 1 2))) (1, 2) = 1
   \<and> length (pair_log (fst (websocket_turn sample_env alice_online (abusive_inbound 1 2))) (1, 2)) = 1"
proof -
  let ?s = "fst (websocket_turn sample_env alice_online (abusive_inbound 1 2))"
  have r: "reachable ?s"
    unfolding alice_online_def by (intro reach_turn reach_connect reach_init)
  have c: "pair_count ?s (1, 2) = 1" by code_simp
  from counter_equals_log_length [of ?s "(1, 2)"] r c show ?thesis by simp
qed

subsection \<open>Failure of the persistence write\<close>

text \<open>
  Claim C8, as amended. If the persistence write for an inbound message fails, the error
  leaves the turn of the message loop at once: the message is neither handled for abuse
  nor forwarded to the receiver, and the manager is left as it was.
\<close>

theorem store_failure_ends_turn:
  "snd (store_message e s (fst (classify_inbound m))) = Inl err \<Longrightarrow>
   websocket_turn e s m = (s, Some err)"
  by (cases "classify_inbound m")
     (auto simp add: websocket_turn_def store_message_def Let_def split: if_splits)

text \<open>The theorem with the database down and the receiver connected.\<close>

theorem store_failure_ends_turn_witness:
  "snd (store_message env_db_down alice_online (fst (classify_inbound (friendly_inbound 1 2))))
     = Inl OperationalError
   \<and> websocket_turn env_db_down alice_online (friendly_inbound 1 2)
     = (alice_online, Some OperationalError)"
proof -
  have h: "snd (store_message env_db_down alice_online
                 (fst (classify_inbound (friendly_inbound 1 2)))) = Inl OperationalError"
    by (simp add: store_message_def env_db_down_def sample_env_def)
  from store_failure_ends_turn [OF h] h show ?thesis by simp
qed

text \<open>
  Claim C8 as stated fails: with the database down, the receiver (user 2) connected on
  socket 7 and a harmless message from user 1, the turn ends with the error of the write
  and nothing has been sent to the receiver.
\<close>

theorem store_failure_counterexample:
  "active_connections alice_online 2 = Some 7
   \<and> snd (store_message env_db_down alice_online (fst (classify_inbound (friendly_inbound 1 2))))
       = Inl OperationalError
   \<and> snd (websocket_turn env_db_down alice_online (friendly_inbound 1 2)) = Some OperationalError
   \<and> sent (fst (websocket_turn env_db_down alice_online (friendly_inbound 1 2))) = []"
  by code_simp

subsection \<open>Failure of the renderer\<close>

lemma gen_users_ok:
  assumes "db_available e" and "db_users e a = Some ua" and "db_users e b = Some ub"
    and "msgs \<noteq> []"
  shows "generate_evidence_report e s a b msgs =
     (case renderer e of
        Render_raises \<Rightarrow> (s, Inl RenderError)
      | Render_saved \<Rightarrow>
          (s\<lparr>archives := archives s @
               [\<lparr>zip_path = now e,
                 zip_members = [Json_report (build_report_data a b msgs), Screenshot, Readme]\<rparr>]\<rparr>,
           Inr (now e)))"
  using assms
  by (simp add: generate_evidence_report_def generate_evidence_screenshot_def Let_def
      split: render_outcome.splits)

text \<open>With no message to draw the renderer returns no image, and the packaging raises
  inside the ZIP block after the JSON member is written.\<close>

lemma gen_empty_list:
  assumes "db_available e" and "db_users e a = Some ua" and "db_users e b = Some ub"
  shows "generate_evidence_report e s a b [] =
     (s\<lparr>archives := archives s @
          [\<lparr>zip_path = now e, zip_members = [Json_report (build_report_data a b [])]\<rparr>]\<rparr>,
      Inl UnboundLocalError)"
  using assms
  by (simp add: generate_evidence_report_def generate_evidence_screenshot_def Let_def)

text \<open>
  Claim C7, as amended. If the transcript renderer raises an error while evidence is
  packaged, the packaging fails with that error and no archive is written; when the
  renderer saves its image, the archive holds the incident JSON, the image and the text
  summary, and its path is returned.
\<close>

theorem renderer_failure_fails_packaging:
  "db_available e \<Longrightarrow> db_users e a = Some ua \<Longrightarrow> db_users e b = Some ub \<Longrightarrow> msgs \<noteq> [] \<Longrightarrow>
     (renderer e = Render_raises \<longrightarrow>
        generate_evidence_report e s a b msgs = (s, Inl RenderError))
     \<and> (renderer e = Render_saved \<longrightarrow>
        snd (generate_evidence_report e s a b msgs) = Inr (now e)
        \<and> archives (fst (generate_evidence_report e s a b msgs)) =
            archives s @
              [\<lparr>zip_path = now e,
                zip_members = [Json_report (build_report_data a b msgs), Screenshot, Readme]\<rparr>])"
  by (simp add: gen_users_ok)

text \<open>The theorem with the renderer raising and with the renderer saving, for one
  incident between the two sample users.\<close>

theorem renderer_failure_fails_packaging_witness:
  "generate_evidence_report env_render_fails alice_online 1 2
       [incident_of env_render_fails (stored_msg 1 2 1) 1] = (alice_online, Inl RenderError)
   \<and> snd (generate_evidence_report sample_env alice_online 1 2
            [incident_of sample_env (stored_msg 1 2 1) 1]) = Inr 100"
proof -
  have u1: "db_users env_render_fails 1 =
      Some \<lparr>username = ''bob'', full_name = ''Bob Smith'', email = ''bob@test.com''\<rparr>"
    and u2: "db_users env_render_fails 2 =
      Some \<lparr>username = ''alice'', full_name = ''Alice Johnson'', email = ''alice@test.com''\<rparr>"
    and d: "db_available env_render_fails" and r: "renderer env_render_fails = Render_raises"
    by (simp_all add: env_render_fails_def sample_env_def sample_users_def)
  have v1: "db_users sample_env 1 =
      Some \<lparr>username = ''bob'', full_name = ''Bob Smith'', email = ''bob@test.com''\<rparr>"
    and v2: "db_users sample_env 2 =
      Some \<lparr>username = ''alice'', full_name = ''Alice Johnson'', email = ''alice@test.com''\<rparr>"
    and d': "db_available sample_env" and r': "renderer sample_env = Render_saved"
    and n: "now sample_env = 100"
    by (simp_all add: sample_env_def sample_users_def)
  have ne: "[x] \<noteq> []" for x :: incident by simp
  from renderer_failure_fails_packaging [OF d u1 u2 ne] r
    renderer_failure_fails_packaging [OF d' v1 v2 ne] r' n
  show ?thesis by simp
qed

text \<open>
  Claim C7 as stated fails: both users exist, the database answers, the renderer raises,
  and the packaging of one incident returns the renderer's error and writes no archive.
\<close>

theorem renderer_failure_counterexample:
  "renderer env_render_fails = Render_raises
   \<and> snd (generate_evidence_report env_render_fails alice_online 1 2
            [incident_of env_render_fails (stored_msg 1 2 1) 1]) = Inl RenderError
   \<and> archives (fst (generate_evidence_report env_render_fails alice_online 1 2
            [incident_of env_render_fails (stored_msg 1 2 1) 1])) = []"
  by code_simp

subsection \<open>One archive for every message\<close>

lemma gen_ok_path: "snd (generate_evidence_report e s a b ms) = Inr p \<Longrightarrow> p = now e"
  by (auto simp add: generate_evidence_report_def Let_def
      split: option.splits sum.splits if_splits)

lemma handle_ok_archive:
  assumes ok: "snd (handle_abusive_message e s m an) = None"
  shows "\<exists>i. md_id m = Some i
     \<and> archives (fst (handle_abusive_message e s m an)) =
         archives s @
           [\<lparr>zip_path = now e,
             zip_members = [Json_report (build_report_data (md_sender_id m) (md_receiver_id m)
                                           [incident_of e m i]),
                            Screenshot, Readme]\<rparr>]"
proof -
  let ?a = "md_sender_id m" and ?b = "md_receiver_id m"
  let ?s1 = "fst (record_incident e s m)"
  from ok obtain i where id: "md_id m = Some i"
    by (cases "md_id m") (simp_all add: handle_without_id)
  obtain s2 r where G: "generate_evidence_report e ?s1 ?a ?b [incident_of e m i] = (s2, r)"
    by fastforce
  from ok id G obtain p where r: "r = Inr p"
    by (cases r) (simp_all add: handle_with_id)
  from G r have snd_G: "snd (generate_evidence_report e ?s1 ?a ?b [incident_of e m i]) = Inr p"
    by simp
  from gen_ok_db [OF snd_G] have db: "db_available e" .
  from gen_ok_path [OF snd_G] have p: "p = now e" .
  have s2: "s2 = fst (generate_evidence_report e ?s1 ?a ?b [incident_of e m i])"
    by (simp add: G)
  have C: "\<exists>st. abuse_counters (add_report s2 ?a ?b i p) (?a, ?b) = Some st"
    by (simp add: add_report_frame s2 gen_frame record_incident_entry [OF id])
  then obtain st where C': "abuse_counters (add_report s2 ?a ?b i p) (?a, ?b) = Some st" ..
  have "archives (fst (handle_abusive_message e s m an)) = archives s2"
    by (simp add: handle_with_id [OF id] G r db thresholds_result(7) [OF C' db] add_report_frame)
  also have "\<dots> = archives ?s1 @
      [\<lparr>zip_path = p,
        zip_members = [Json_report (build_report_data ?a ?b [incident_of e m i]),
                       Screenshot, Readme]\<rparr>]"
    unfolding s2 by (rule gen_ok_archives [OF snd_G])
  finally show ?thesis using id p by (simp add: record_incident_frame)
qed

text \<open>
  Claim C5, as amended. Every call of \<^verbatim>\<open>handle_abusive_message\<close> that returns
  creates exactly one evidence archive, built from the incident of that message alone:
  one archive for every abusive message, also for the second message of a pair, which
  triggers neither the warning nor the block.
\<close>

theorem one_archive_per_message:
  "snd (handle_abusive_message e s m an) = None \<Longrightarrow>
     (\<exists>i. md_id m = Some i
        \<and> archives (fst (handle_abusive_message e s m an)) =
            archives s @
              [\<lparr>zip_path = now e,
                zip_members = [Json_report (build_report_data (md_sender_id m) (md_receiver_id m)
                                              [incident_of e m i]),
                               Screenshot, Readme]\<rparr>])
     \<and> length (db_reports (fst (handle_abusive_message e s m an))) = length (db_reports s) + 1
     \<and> (pair_count s (md_sender_id m, md_receiver_id m) = 1 \<longrightarrow>
          sent (fst (handle_abusive_message e s m an)) = sent s
          \<and> db_blocked (fst (handle_abusive_message e s m an)) = db_blocked s)"
proof -
  assume ok: "snd (handle_abusive_message e s m an) = None"
  note R = handle_ok_result [OF ok]
  have "pair_count s (md_sender_id m, md_receiver_id m) = 1 \<Longrightarrow>
          sent (fst (handle_abusive_message e s m an)) = sent s
          \<and> db_blocked (fst (handle_abusive_message e s m an)) = db_blocked s"
    by (simp add: R(1) R(2))
  with handle_ok_archive [OF ok] R(7) show ?thesis by blast
qed

text \<open>The theorem at the second abusive message from user 1 to user 2.\<close>

theorem one_archive_per_message_witness:
  "snd (handle_abusive_message sample_env (handled sample_env alice_online (stored_msg 1 2 1))
          (stored_msg 1 2 2) (Reason [])) = None
   \<and> pair_count (handled sample_env alice_online (stored_msg 1 2 1)) (1, 2) = 1
   \<and> length (archives (handled sample_env (handled sample_env alice_online (stored_msg 1 2 1))
                          (stored_msg 1 2 2))) = 2
   \<and> sent (handled sample_env (handled sample_env alice_online (stored_msg 1 2 1))
              (stored_msg 1 2 2))
       = sent (handled sample_env alice_online (stored_msg 1 2 1))"
proof -
  let ?s1 = "handled sample_env alice_online (stored_msg 1 2 1)"
  have ok: "snd (handle_abusive_message sample_env ?s1 (stored_msg 1 2 2) (Reason [])) = None"
    by code_simp
  have c: "pair_count ?s1 (1, 2) = 1" by code_simp
  have a1: "length (archives ?s1) = 1" by code_simp
  have sr: "md_sender_id (stored_msg 1 2 2) = 1" "md_receiver_id (stored_msg 1 2 2) = 2"
    by (simp_all add: stored_msg_def)
  from one_archive_per_message [OF ok] c a1 sr ok show ?thesis
    by (auto simp add: handled_def)
qed

text \<open>
  Claim C5 as stated fails: the second abusive message of a pair triggers no warning and
  no block (nothing is sent, nobody is blocked), and an archive is created for it all the
  same; after two messages there are two archives and one trigger.
\<close>

theorem archive_without_trigger_counterexample:
  "length (archives (handled sample_env alice_online (stored_msg 1 2 1))) = 1
   \<and> length (archives (handled sample_env (handled sample_env alice_online (stored_msg 1 2 1))
                          (stored_msg 1 2 2))) = 2
   \<and> sent (handled sample_env (handled sample_env alice_online (stored_msg 1 2 1))
              (stored_msg 1 2 2))
       = [(7, warning_alert)]
   \<and> sent (handled sample_env alice_online (stored_msg 1 2 1)) = [(7, warning_alert)]
   \<and> db_blocked (handled sample_env (handled sample_env alice_online (stored_msg 1 2 1))
                    (stored_msg 1 2 2)) = []"
  by code_simp

subsection \<open>Failure of the evidence packaging\<close>

text \<open>
  Claim C4, as amended. If the evidence packaging fails while an abusive incident is
  recorded, the increment of the pair's counter and the new log entry, which precede it,
  remain; the error leaves \<^verbatim>\<open>handle_abusive_message\<close> at once, so no report row is
  written and neither the warning nor the block of that incident is performed.
\<close>

theorem evidence_failure_skips_action:
  assumes "md_id m = Some i"
    and "snd (generate_evidence_report e (fst (record_incident e s m))
                (md_sender_id m) (md_receiver_id m) [incident_of e m i]) = Inl err"
  shows "snd (handle_abusive_message e s m an) = Some err
     \<and> pair_count (fst (handle_abusive_message e s m an)) (md_sender_id m, md_receiver_id m)
         = pair_count s (md_sender_id m, md_receiver_id m) + 1
     \<and> pair_log (fst (handle_abusive_message e s m an)) (md_sender_id m, md_receiver_id m)
         = pair_log s (md_sender_id m, md_receiver_id m) @ [incident_of e m i]
     \<and> sent (fst (handle_abusive_message e s m an)) = sent s
     \<and> db_blocked (fst (handle_abusive_message e s m an)) = db_blocked s
     \<and> db_reports (fst (handle_abusive_message e s m an)) = db_reports s"
proof -
  let ?a = "md_sender_id m" and ?b = "md_receiver_id m"
  let ?s1 = "fst (record_incident e s m)"
  obtain s2 r where G: "generate_evidence_report e ?s1 ?a ?b [incident_of e m i] = (s2, r)"
    by fastforce
  with assms(2) have r: "r = Inl err" by simp
  from gen_err_archives [OF assms(2)] G have s2: "s2 = ?s1" by simp
  have H: "handle_abusive_message e s m an = (?s1, Some err)"
    by (simp add: handle_with_id [OF assms(1)] G r s2)
  show ?thesis
    by (simp add: H record_incident_frame pair_count_def pair_log_def
        record_incident_entry [OF assms(1)])
qed

text \<open>The theorem at a first abusive message from user 1 to user 2, with a renderer
  that raises.\<close>

theorem evidence_failure_skips_action_witness:
  "md_id (stored_msg 1 2 1) = Some 1
   \<and> snd (generate_evidence_report env_render_fails
             (fst (record_incident env_render_fails alice_online (stored_msg 1 2 1)))
             (md_sender_id (stored_msg 1 2 1)) (md_receiver_id (stored_msg 1 2 1))
             [incident_of env_render_fails (stored_msg 1 2 1) 1]) = Inl RenderError
   \<and> snd (handle_abusive_message env_render_fails alice_online (stored_msg 1 2 1) (Reason []))
       = Some RenderError
   \<and> sent (fst (handle_abusive_message env_render_fails alice_online (stored_msg 1 2 1)
                   (Reason [])))
       = sent alice_online"
proof -
  have id: "md_id (stored_msg 1 2 1) = Some 1" by (simp add: stored_msg_def)
  have g: "snd (generate_evidence_report env_render_fails
                 (fst (record_incident env_render_fails alice_online (stored_msg 1 2 1)))
                 (md_sender_id (stored_msg 1 2 1)) (md_receiver_id (stored_msg 1 2 1))
                 [incident_of env_render_fails (stored_msg 1 2 1) 1]) = Inl RenderError"
    by code_simp
  from evidence_failure_skips_action [OF id g] id g show ?thesis by simp
qed

text \<open>
  Claim C4 as stated fails: the receiver (user 2) is connected, the pair is fresh, the
  renderer raises and with it the packaging of the first incident; the counter is 1
  afterwards, which is the warning threshold, and no warning has been sent.
\<close>

theorem evidence_failure_counterexample:
  "active_connections alice_online 2 = Some 7
   \<and> pair_count alice_online (1, 2) = 0
   \<and> snd (handle_abusive_message env_render_fails alice_online (stored_msg 1 2 1) (Reason []))
       = Some RenderError
   \<and> pair_count (handled env_render_fails alice_online (stored_msg 1 2 1)) (1, 2) = 1
   \<and> sent (handled env_render_fails alice_online (stored_msg 1 2 1)) = []
   \<and> db_reports (handled env_render_fails alice_online (stored_msg 1 2 1)) = []
   \<and> sent (handled sample_env alice_online (stored_msg 1 2 1)) = [(7, warning_alert)]"
  by code_simp

subsection \<open>Three abusive messages in a row\<close>

lemma wire_same: "active_connections s' = active_connections s \<Longrightarrow> wire s' b p = wire s b p"
  by (simp add: wire_def)

text \<open>
  Claim C2, as amended. Three abusive messages in a row from \<open>a\<close> to \<open>b\<close>, each handled
  without an error, starting from a pair whose counter is 0: after the first, the
  warning alert is sent to \<open>b\<close>'s connection if \<open>b\<close> has one, and nobody is blocked; after
  the second, nothing is sent and nobody is blocked; after the third, exactly one block
  row (\<open>b\<close> blocks \<open>a\<close>) is written and the block alert is sent to \<open>b\<close>'s connection if \<open>b\<close>
  has one, and the pair's counter is 0 and its log is empty. A receiver with a live
  connection gets exactly one alert each time; a receiver without one gets none.
\<close>

theorem three_strikes:
  assumes fresh: "pair_count s0 (a, b) = 0"
    and m1: "md_sender_id m1 = a" "md_receiver_id m1 = b"
    and m2: "md_sender_id m2 = a" "md_receiver_id m2 = b"
    and m3: "md_sender_id m3 = a" "md_receiver_id m3 = b"
    and ok1: "snd (handle_abusive_message e1 s0 m1 an1) = None"
    and s1: "s1 = fst (handle_abusive_message e1 s0 m1 an1)"
    and ok2: "snd (handle_abusive_message e2 s1 m2 an2) = None"
    and s2: "s2 = fst (handle_abusive_message e2 s1 m2 an2)"
    and ok3: "snd (handle_abusive_message e3 s2 m3 an3) = None"
    and s3: "s3 = fst (handle_abusive_message e3 s2 m3 an3)"
  shows "sent s1 = sent s0 @ wire s0 b warning_alert \<and> db_blocked s1 = db_blocked s0
     \<and> sent s2 = sent s1 \<and> db_blocked s2 = db_blocked s1
     \<and> sent s3 = sent s2 @ wire s0 b block_alert
     \<and> db_blocked s3 = db_blocked s2 @ [block_row a b]
     \<and> pair_count s3 (a, b) = 0 \<and> pair_log s3 (a, b) = []
     \<and> (\<forall>p. wire s0 b p = (case active_connections s0 b of
                               None \<Rightarrow> [] | Some websocket \<Rightarrow> [(websocket, p)]))"
proof -
  note R1 = handle_ok_result [OF ok1, unfolded m1, folded s1]
  note R2 = handle_ok_result [OF ok2, unfolded m2, folded s2]
  note R3 = handle_ok_result [OF ok3, unfolded m3, folded s3]
  have c1: "pair_count s1 (a, b) = 1" using R1(3) fresh by simp
  have c2: "pair_count s2 (a, b) = 2" using R2(3) c1 by simp
  have w1: "wire s1 b p = wire s0 b p" for p by (rule wire_same [OF R1(5)])
  have w2: "wire s2 b p = wire s0 b p" for p
    using wire_same [OF R2(5)] w1 by simp
  have A: "sent s1 = sent s0 @ wire s0 b warning_alert" "db_blocked s1 = db_blocked s0"
    using R1(1) R1(2) fresh by simp_all
  have B: "sent s2 = sent s1" "db_blocked s2 = db_blocked s1"
    using R2(1) R2(2) c1 by simp_all
  have C: "sent s3 = sent s2 @ wire s0 b block_alert"
    "db_blocked s3 = db_blocked s2 @ [block_row a b]"
    "pair_count s3 (a, b) = 0" "length (pair_log s3 (a, b)) = 0"
    using R3(1) R3(2) R3(3) R3(4) c2 w2 by simp_all
  have D: "wire s0 b p = (case active_connections s0 b of
                            None \<Rightarrow> [] | Some websocket \<Rightarrow> [(websocket, p)])" for p
    by (simp add: wire_def)
  from A B C D show ?thesis by simp
qed

text \<open>The theorem for users 1 and 2 of the sample data, the receiver connected on
  socket 7.\<close>

theorem three_strikes_witness:
  "pair_count alice_online (1, 2) = 0
   \<and> snd (handle_abusive_message sample_env alice_online (stored_msg 1 2 1) (Reason [])) = None
   \<and> sent (handled sample_env alice_online (stored_msg 1 2 1)) = [(7, warning_alert)]
   \<and> sent (handled sample_env (handled sample_env alice_online (stored_msg 1 2 1))
              (stored_msg 1 2 2)) = [(7, warning_alert)]
   \<and> sent (handled sample_env
              (handled sample_env (handled sample_env alice_online (stored_msg 1 2 1))
                 (stored_msg 1 2 2))
              (stored_msg 1 2 3)) = [(7, warning_alert), (7, block_alert)]
   \<and> db_blocked (handled sample_env
              (handled sample_env (handled sample_env alice_online (stored_msg 1 2 1))
                 (stored_msg 1 2 2))
              (stored_msg 1 2 3)) = [block_row 1 2]
   \<and> pair_count (handled sample_env
              (handled sample_env (handled sample_env alice_online (stored_msg 1 2 1))
                 (stored_msg 1 2 2))
              (stored_msg 1 2 3)) (1, 2) = 0"
proof -
  let ?e = sample_env
  let ?s1 = "handled ?e alice_online (stored_msg 1 2 1)"
  let ?s2 = "handled ?e ?s1 (stored_msg 1 2 2)"
  let ?s3 = "handled ?e ?s2 (stored_msg 1 2 3)"
  have fresh: "pair_count alice_online (1, 2) = 0" by code_simp
  have sr: "md_sender_id (stored_msg 1 2 i) = 1" "md_receiver_id (stored_msg 1 2 i) = 2" for i
    by (simp_all add: stored_msg_def)
  have ok1: "snd (handle_abusive_message ?e alice_online (stored_msg 1 2 1) (Reason [])) = None"
    by code_simp
  have ok2: "snd (handle_abusive_message ?e ?s1 (stored_msg 1 2 2) (Reason [])) = None"
    by code_simp
  have ok3: "snd (handle_abusive_message ?e ?s2 (stored_msg 1 2 3) (Reason [])) = None"
    by code_simp
  have e1: "?s1 = fst (handle_abusive_message ?e alice_online (stored_msg 1 2 1) (Reason []))"
    and e2: "?s2 = fst (handle_abusive_message ?e ?s1 (stored_msg 1 2 2) (Reason []))"
    and e3: "?s3 = fst (handle_abusive_message ?e ?s2 (stored_msg 1 2 3) (Reason []))"
    by (simp_all add: handled_def)
  have c: "active_connections alice_online 2 = Some 7" "sent alice_online = []"
    "db_blocked alice_online = []"
    by (simp_all add: alice_online_def connect_def init_state_def)
  from three_strikes [OF fresh sr sr sr ok1 e1 ok2 e2 ok3 e3] c fresh ok1
  show ?thesis by simp
qed

text \<open>
  Claim C2 as stated fails in two ways. With the receiver (user 2) not connected, the
  first of the three messages is handled without error and no warning alert is emitted.
  With a renderer that raises, the evidence packaging raises in each of the three calls:
  after the third message nobody is blocked, nothing was sent, and the pair's counter
  is 3.
\<close>

theorem three_strikes_counterexample:
  "active_connections init_state 2 = None
   \<and> pair_count init_state (1, 2) = 0
   \<and> snd (handle_abusive_message sample_env init_state (stored_msg 1 2 1) (Reason [])) = None
   \<and> sent (handled sample_env init_state (stored_msg 1 2 1)) = []
   \<and> active_connections alice_online 2 = Some 7
   \<and> pair_count alice_online (1, 2) = 0
   \<and> pair_count (handled env_render_fails
              (handled env_render_fails (handled env_render_fails alice_online (stored_msg 1 2 1))
                 (stored_msg 1 2 2))
              (stored_msg 1 2 3)) (1, 2) = 3
   \<and> db_blocked (handled env_render_fails
              (handled env_render_fails (handled env_render_fails alice_online (stored_msg 1 2 1))
                 (stored_msg 1 2 2))
              (stored_msg 1 2 3)) = []
   \<and> sent (handled env_render_fails
              (handled env_render_fails (handled env_render_fails alice_online (stored_msg 1 2 1))
                 (stored_msg 1 2 2))
              (stored_msg 1 2 3)) = []"
  by code_simp

subsection \<open>Delivery\<close>

lemma stored_form_fields:
  "md_sender_id (stored_form s m) = in_sender_id m"
  "md_receiver_id (stored_form s m) = in_receiver_id m"
  "md_content (stored_form s m) = in_content m"
  "md_is_abusive (stored_form s m) = fst (analyze_text (in_content m))"
  "md_abuse_score (stored_form s m) = fst (snd (analyze_text (in_content m)))"
  "md_abuse_type (stored_form s m) =
     (if fst (analyze_text (in_content m))
      then get_classification (snd (snd (analyze_text (in_content m)))) else None)"
  "md_id (stored_form s m) = Some (int (length (db_messages s)) + 1)"
  by (simp_all add: stored_form_def classify_inbound_def split: prod.splits)

text \<open>The state in which the forward is made, when the turn gets that far.\<close>

lemma turn_not_abusive:
  assumes "db_available e" and "\<not> md_is_abusive (stored_form s m)"
  shows "websocket_turn e s m =
     (send_personal_message (s\<lparr>db_messages := db_messages s @ [stored_form s m]\<rparr>)
        (stored_form s m) (in_receiver_id m), None)"
proof -
  obtain md an where C: "classify_inbound m = (md, an)" by fastforce
  have sf: "stored_form s m = md\<lparr>md_id := Some (int (length (db_messages s)) + 1)\<rparr>"
    by (simp add: stored_form_def C)
  have r: "md_receiver_id md = in_receiver_id m"
    using stored_form_fields(2) [of s m] by (simp add: sf)
  from assms(2) have na: "\<not> md_is_abusive md" by (simp add: sf)
  show ?thesis
    unfolding sf using assms(1) na r
    by (simp add: websocket_turn_def store_message_def C Let_def)
qed

lemma turn_abusive:
  assumes "db_available e" and "md_is_abusive (stored_form s m)"
    and "handle_abusive_message e (s\<lparr>db_messages := db_messages s @ [stored_form s m]\<rparr>)
           (stored_form s m) (snd (classify_inbound m)) = (s2, r)"
  shows "websocket_turn e s m =
     (case r of Some err \<Rightarrow> (s2, Some err)
      | None \<Rightarrow> (send_personal_message s2 (stored_form s m) (in_receiver_id m), None))"
proof -
  obtain md an where C: "classify_inbound m = (md, an)" by fastforce
  have sf: "stored_form s m = md\<lparr>md_id := Some (int (length (db_messages s)) + 1)\<rparr>"
    by (simp add: stored_form_def C)
  have rc: "md_receiver_id md = in_receiver_id m"
    using stored_form_fields(2) [of s m] by (simp add: sf)
  from assms(2) have ab: "md_is_abusive md" by (simp add: sf)
  from assms(3) have H: "handle_abusive_message e
      (s\<lparr>db_messages := db_messages s @ [md\<lparr>md_id := Some (int (length (db_messages s)) + 1)\<rparr>]\<rparr>)
      (md\<lparr>md_id := Some (int (length (db_messages s)) + 1)\<rparr>) an = (s2, r)"
    by (simp add: sf C)
  show ?thesis
    unfolding sf using assms(1) ab rc
    by (cases r) (simp_all add: websocket_turn_def store_message_def C Let_def H)
qed

lemma turn_ok_db: "snd (websocket_turn e s m) = None \<Longrightarrow> db_available e"
  by (cases "classify_inbound m")
     (auto simp add: websocket_turn_def store_message_def split: if_splits)

lemma turn_ok_forward:
  assumes ok: "snd (websocket_turn e s m) = None"
  shows "\<exists>s2. fst (websocket_turn e s m) =
                send_personal_message s2 (stored_form s m) (in_receiver_id m)
              \<and> active_connections s2 = active_connections s
              \<and> (active_connections s (in_receiver_id m) = None \<longrightarrow> sent s2 = sent s)"
proof -
  let ?b = "in_receiver_id m"
  let ?st = "stored_form s m"
  let ?s1 = "s\<lparr>db_messages := db_messages s @ [?st]\<rparr>"
  from turn_ok_db [OF ok] have db: "db_available e" .
  show ?thesis
  proof (cases "md_is_abusive ?st")
    case False
    have "fst (websocket_turn e s m) = send_personal_message ?s1 ?st ?b"
      by (simp add: turn_not_abusive [OF db False])
    then have "fst (websocket_turn e s m) = send_personal_message ?s1 ?st ?b
        \<and> active_connections ?s1 = active_connections s
        \<and> (active_connections s ?b = None \<longrightarrow> sent ?s1 = sent s)"
      by simp
    then show ?thesis by (rule exI [of _ ?s1])
  next
    case True
    obtain s2 r where H: "handle_abusive_message e ?s1 ?st (snd (classify_inbound m)) = (s2, r)"
      by fastforce
    note T = turn_abusive [OF db True H]
    have r: "r = None"
    proof (cases r)
      case None
      then show ?thesis .
    next
      case (Some err)
      with T have "snd (websocket_turn e s m) = Some err" by simp
      with ok show ?thesis by simp
    qed
    from H r have okh: "snd (handle_abusive_message e ?s1 ?st (snd (classify_inbound m))) = None"
      by simp
    from H have s2: "fst (handle_abusive_message e ?s1 ?st (snd (classify_inbound m))) = s2"
      by simp
    have ac1: "active_connections s2 = active_connections ?s1"
      using handle_ok_result(5) [OF okh] by (simp only: s2)
    have ac: "active_connections s2 = active_connections s"
      by (simp add: ac1)
    have rb: "md_receiver_id ?st = ?b" by (rule stored_form_fields)
    have w1: "wire ?s1 ?b p = wire s ?b p" for p by (simp add: wire_def)
    have sn: "sent s2 = sent ?s1 @
          (if pair_count ?s1 (md_sender_id ?st, ?b) + 1 = 1
           then wire s ?b warning_alert
           else if 3 \<le> pair_count ?s1 (md_sender_id ?st, ?b) + 1
           then wire s ?b block_alert else [])"
      using handle_ok_result(1) [OF okh] by (simp only: s2 rb w1)
    have A: "active_connections s ?b = None \<longrightarrow> sent s2 = sent s"
    proof
      assume n: "active_connections s ?b = None"
      then have "wire s ?b p = []" for p by (simp add: wire_def)
      then show "sent s2 = sent s" by (simp add: sn)
    qed
    have F: "fst (websocket_turn e s m) = send_personal_message s2 ?st ?b"
      by (simp add: T r)
    from conjI [OF F conjI [OF ac A]] show ?thesis by (rule exI [of _ s2])
  qed
qed

lemma turn_ok_connected:
  assumes ok: "snd (websocket_turn e s m) = None"
    and c: "active_connections s (in_receiver_id m) = Some ws"
  shows "sent (fst (websocket_turn e s m)) \<noteq> []"
    and "last (sent (fst (websocket_turn e s m))) = (ws, Chat (stored_form s m))"
proof -
  from turn_ok_forward [OF ok] obtain s2 where
    F: "fst (websocket_turn e s m) = send_personal_message s2 (stored_form s m) (in_receiver_id m)"
    and ac: "active_connections s2 = active_connections s" by blast
  from c ac have c2: "active_connections s2 (in_receiver_id m) = Some ws" by simp
  have S: "sent (send_personal_message s2 (stored_form s m) (in_receiver_id m)) =
             sent s2 @ [(ws, Chat (stored_form s m))]"
    using c2 by (simp add: send_personal_message_def send_text_def)
  show "sent (fst (websocket_turn e s m)) \<noteq> []" by (simp add: F S)
  show "last (sent (fst (websocket_turn e s m))) = (ws, Chat (stored_form s m))"
    by (simp add: F S)
qed

lemma turn_ok_not_connected:
  assumes ok: "snd (websocket_turn e s m) = None"
    and c: "active_connections s (in_receiver_id m) = None"
  shows "sent (fst (websocket_turn e s m)) = sent s"
proof -
  from turn_ok_forward [OF ok] c obtain s2 where
    F: "fst (websocket_turn e s m) = send_personal_message s2 (stored_form s m) (in_receiver_id m)"
    and ac: "active_connections s2 = active_connections s"
    and sn: "sent s2 = sent s" by blast
  from c ac have c2: "active_connections s2 (in_receiver_id m) = None" by simp
  show ?thesis using c2 sn by (simp add: F send_personal_message_def)
qed

text \<open>
  Claim C9, as amended. For every inbound message from A to B whose turn of the message
  loop completes without raising: if B has a live connection, the message with the
  classification fields attached is the last text sent on B's connection, whether the
  message was classified abusive or not; if B has no live connection, nothing is sent.
  The delivery operation itself is a no-op without error for a user that is not
  connected. A turn for a message that is not abusive completes whenever the database
  accepts the write.
\<close>

theorem delivery_when_turn_completes:
  "(active_connections s u = None \<longrightarrow> send_personal_message s msg u = s)
   \<and> (active_connections s u = Some ws \<longrightarrow>
        send_personal_message s msg u = s\<lparr>sent := sent s @ [(ws, Chat msg)]\<rparr>)
   \<and> (snd (websocket_turn e s m) = None \<longrightarrow> active_connections s (in_receiver_id m) = Some ws \<longrightarrow>
        sent (fst (websocket_turn e s m)) \<noteq> []
        \<and> last (sent (fst (websocket_turn e s m))) = (ws, Chat (stored_form s m)))
   \<and> (snd (websocket_turn e s m) = None \<longrightarrow> active_connections s (in_receiver_id m) = None \<longrightarrow>
        sent (fst (websocket_turn e s m)) = sent s)
   \<and> (\<not> fst (analyze_text (in_content m)) \<longrightarrow> db_available e \<longrightarrow>
        snd (websocket_turn e s m) = None)
   \<and> md_is_abusive (stored_form s m) = fst (analyze_text (in_content m))
   \<and> md_abuse_score (stored_form s m) = fst (snd (analyze_text (in_content m)))
   \<and> md_abuse_type (stored_form s m) =
       (if fst (analyze_text (in_content m))
        then get_classification (snd (snd (analyze_text (in_content m)))) else None)"
proof (intro conjI impI)
  show "send_personal_message s msg u = s" if "active_connections s u = None"
    using that by (simp add: send_personal_message_def)
  show "send_personal_message s msg u = s\<lparr>sent := sent s @ [(ws, Chat msg)]\<rparr>"
    if "active_connections s u = Some ws"
    using that by (simp add: send_personal_message_def send_text_def)
  show "sent (fst (websocket_turn e s m)) \<noteq> []"
    if "snd (websocket_turn e s m) = None" "active_connections s (in_receiver_id m) = Some ws"
    using that by (rule turn_ok_connected(1))
  show "last (sent (fst (websocket_turn e s m))) = (ws, Chat (stored_form s m))"
    if "snd (websocket_turn e s m) = None" "active_connections s (in_receiver_id m) = Some ws"
    using that by (rule turn_ok_connected(2))
  show "sent (fst (websocket_turn e s m)) = sent s"
    if "snd (websocket_turn e s m) = None" "active_connections s (in_receiver_id m) = None"
    using that by (rule turn_ok_not_connected)
  show "snd (websocket_turn e s m) = None"
    if "\<not> fst (analyze_text (in_content m))" "db_available e"
  proof -
    from that(1) have "\<not> md_is_abusive (stored_form s m)"
      by (simp add: stored_form_fields(4))
    from turn_not_abusive [OF that(2) this] show ?thesis by simp
  qed
  show "md_is_abusive (stored_form s m) = fst (analyze_text (in_content m))"
    by (rule stored_form_fields)
  show "md_abuse_score (stored_form s m) = fst (snd (analyze_text (in_content m)))"
    by (rule stored_form_fields)
  show "md_abuse_type (stored_form s m) =
       (if fst (analyze_text (in_content m))
        then get_classification (snd (snd (analyze_text (in_content m)))) else None)"
    by (rule stored_form_fields)
qed

text \<open>The theorem at an abusive message from user 1 to user 2, connected on socket 7,
  and at a user that is not connected.\<close>

theorem delivery_when_turn_completes_witness:
  "snd (websocket_turn sample_env alice_online (abusive_inbound 1 2)) = None
   \<and> active_connections alice_online (in_receiver_id (abusive_inbound 1 2)) = Some 7
   \<and> md_is_abusive (stored_form alice_online (abusive_inbound 1 2))
   \<and> last (sent (fst (websocket_turn sample_env alice_online (abusive_inbound 1 2))))
       = (7, Chat (stored_form alice_online (abusive_inbound 1 2)))
   \<and> active_connections init_state 2 = None
   \<and> send_personal_message init_state (stored_msg 1 2 1) 2 = init_state"
proof -
  have ok: "snd (websocket_turn sample_env alice_online (abusive_inbound 1 2)) = None"
    by code_simp
  have c: "active_connections alice_online (in_receiver_id (abusive_inbound 1 2)) = Some 7"
    by (simp add: alice_online_def connect_def abusive_inbound_def)
  have ab: "md_is_abusive (stored_form alice_online (abusive_inbound 1 2))" by code_simp
  have n: "active_connections init_state 2 = None" by (simp add: init_state_def)
  note T = delivery_when_turn_completes
         [of alice_online "in_receiver_id (abusive_inbound 1 2)" "stored_msg 1 2 1" 7
             sample_env "abusive_inbound 1 2"]
  from T ok c
  have L: "last (sent (fst (websocket_turn sample_env alice_online (abusive_inbound 1 2))))
       = (7, Chat (stored_form alice_online (abusive_inbound 1 2)))"
    by (elim conjE) (drule (1) mp, drule (1) mp, erule conjunct2)
  note N = delivery_when_turn_completes
         [of init_state 2 "stored_msg 1 2 1" 7 sample_env "abusive_inbound 1 2",
          THEN conjunct1, rule_format, OF n]
  from ok c ab L n N show ?thesis by (intro conjI)
qed

text \<open>
  Claim C9 as stated fails: the receiver (user 2) is connected on socket 7 and the
  renderer raises; the abusive message of user 1 makes the evidence packaging raise
  inside \<^verbatim>\<open>handle_abusive_message\<close>, the turn ends with that error and nothing is
  sent on socket 7; the harmless message of the same sender, in the same state and
  environment, is delivered.
\<close>

theorem delivery_counterexample:
  "active_connections alice_online 2 = Some 7
   \<and> fst (analyze_text (in_content (abusive_inbound 1 2)))
   \<and> snd (websocket_turn env_render_fails alice_online (abusive_inbound 1 2)) = Some RenderError
   \<and> sent (fst (websocket_turn env_render_fails alice_online (abusive_inbound 1 2))) = []
   \<and> \<not> fst (analyze_text (in_content (friendly_inbound 1 2)))
   \<and> snd (websocket_turn env_render_fails alice_online (friendly_inbound 1 2)) = None
   \<and> sent (fst (websocket_turn env_render_fails alice_online (friendly_inbound 1 2)))
       = [(7, Chat (stored_form alice_online (friendly_inbound 1 2)))]"
  by code_simp

end
